theory Spec2Isabelle
  imports Main "HOL-Library.Multiset"
begin

section \<open>Data model\<close>

text \<open>
  A row of the table \<open>JAAR_raw\<close>, with the columns the data query of
  \<open>extract_ch4.py\<close> selects. Timestamps are whole seconds, chamber identifiers are
  integers, the status column may be NULL (\<open>None\<close>); the measurement columns are only
  carried through, so their type is left open.
\<close>

record 'm event_row =
  TIMESTAMP :: int
  CH4 :: 'm
  ChamberStatus :: "int option"
  ChamberID :: int
  ChamberTC :: 'm

text \<open>
  A row of the result of the session query: one detected session, with
  \<open>DATEDIFF('second', start_time, end_time)\<close> as its duration.
\<close>

record session =
  chamber_id :: int
  start_time :: int
  end_time :: int
  duration_seconds :: int

text \<open>The exceptions the scripts can meet; the last two carry their message.\<close>

datatype py_error = IndexError | ValueError | DatabaseError string | OSError string

definition str_error :: "py_error \<Rightarrow> string" where
  "str_error e = (case e of
       IndexError \<Rightarrow> ''single positional indexer is out-of-bounds''
     | ValueError \<Rightarrow> ''No objects to concatenate''
     | DatabaseError m \<Rightarrow> m
     | OSError m \<Rightarrow> m)"

section \<open>Session detection of \<open>extract_ch4.py\<close> (the query \<open>fetch_all_sessions\<close>)\<close>

text \<open>
  The window \<open>PARTITION BY ChamberID ORDER BY TIMESTAMP\<close>: the rows of one chamber in
  time order (a stable sort, one of the orders SQL allows when timestamps repeat).
\<close>

definition partition_rows :: "'m event_row list \<Rightarrow> int \<Rightarrow> 'm event_row list" where
  "partition_rows con c = sort_key TIMESTAMP (filter (\<lambda>r. ChamberID r = c) con)"

text \<open>
  The CTE \<open>active_sessions\<close> on one partition: each row with \<open>LAG(ChamberStatus)\<close> and
  \<open>LEAD(ChamberStatus)\<close>, which are NULL at the first and the last row.
\<close>

definition active_sessions ::
  "'m event_row list \<Rightarrow> int \<Rightarrow> ('m event_row \<times> int option \<times> int option) list" where
  "active_sessions con c =
     (let part = partition_rows con c;
          st = map ChamberStatus part
      in zip part (zip (None # st) (tl st @ [None])))"

text \<open>\<open>ChamberStatus != 0\<close>: NULL does not pass a WHERE clause.\<close>

definition status_nonzero :: "int option \<Rightarrow> bool" where
  "status_nonzero s = (case s of None \<Rightarrow> False | Some v \<Rightarrow> v \<noteq> 0)"

text \<open>\<open>x = 0 OR x IS NULL\<close>\<close>

definition zero_or_null :: "int option \<Rightarrow> bool" where
  "zero_or_null s = (case s of None \<Rightarrow> True | Some v \<Rightarrow> v = 0)"

definition session_start :: "'m event_row list \<Rightarrow> int \<Rightarrow> int list" where
  "session_start con c =
     map (\<lambda>(r, p, n). TIMESTAMP r)
       (filter (\<lambda>(r, p, n). status_nonzero (ChamberStatus r) \<and> zero_or_null p)
          (active_sessions con c))"

definition session_end :: "'m event_row list \<Rightarrow> int \<Rightarrow> int list" where
  "session_end con c =
     map (\<lambda>(r, p, n). TIMESTAMP r)
       (filter (\<lambda>(r, p, n). status_nonzero (ChamberStatus r) \<and> zero_or_null n)
          (active_sessions con c))"

text \<open>
  \<open>JOIN LATERAL (SELECT e.end_time ... WHERE e.end_time > s.start_time ORDER BY
  e.end_time LIMIT 1) e ON true\<close>: the first end after the start, and no row when there
  is none.
\<close>

definition lateral_end :: "int list \<Rightarrow> int \<Rightarrow> int option" where
  "lateral_end ends s =
     (case sort (filter (\<lambda>e. e > s) ends) of [] \<Rightarrow> None | e # _ \<Rightarrow> Some e)"

definition chamber_sessions :: "'m event_row list \<Rightarrow> int \<Rightarrow> session list" where
  "chamber_sessions con c =
     concat (map (\<lambda>s. case lateral_end (session_end con c) s of
                          None \<Rightarrow> []
                        | Some e \<Rightarrow> [\<lparr>chamber_id = c, start_time = s, end_time = e,
                                      duration_seconds = e - s\<rparr>])
                 (session_start con c))"

text \<open>\<open>ORDER BY s.ChamberID, s.start_time\<close>\<close>

definition fetch_all_sessions :: "'m event_row list \<Rightarrow> session list" where
  "fetch_all_sessions con =
     concat (map (chamber_sessions con) (sort (remdups (map ChamberID con))))"

section \<open>Session materialisation (the query \<open>data_query\<close>)\<close>

definition data_query :: "'m event_row list \<Rightarrow> session \<Rightarrow> 'm event_row list" where
  "data_query con row =
     sort_key TIMESTAMP
       (filter (\<lambda>r. ChamberID r = chamber_id row \<and> TIMESTAMP r \<ge> start_time row
                    \<and> TIMESTAMP r \<le> end_time row) con)"

section \<open>Formatting and paths\<close>

definition digit_char :: "nat \<Rightarrow> char" where
  "digit_char d = ''0123456789'' ! d"

function str_nat :: "nat \<Rightarrow> string" where
  "str_nat n = (if n < 10 then [digit_char n] else str_nat (n div 10) @ [digit_char (n mod 10)])"
  by pat_completeness auto
termination
  by (relation "measure (\<lambda>n. n)") auto

declare str_nat.simps [simp del]

definition str_int :: "int \<Rightarrow> string" where
  "str_int i = (if i < 0 then ''-'' @ str_nat (nat (- i)) else str_nat (nat i))"

text \<open>\<open>os.path.join\<close> of a directory and one component (POSIX).\<close>

definition os_path_join :: "string \<Rightarrow> string \<Rightarrow> string" where
  "os_path_join a b =
     (if b \<noteq> [] \<and> hd b = CHR ''/'' then b
      else if a = [] \<or> last a = CHR ''/'' then a @ b
      else a @ ''/'' @ b)"

section \<open>The segmenting variant: the loop of \<open>extract_ch4.py\<close>\<close>

text \<open>
  The connection \<open>con\<close> is the table it reads: in this script every query is answered
  and every \<open>to_csv\<close> succeeds, so the only exceptions are those the loop raises itself.
\<close>

text \<open>
  Python slicing \<open>df.iloc[:k]\<close> and \<open>df.iloc[k:]\<close>: a negative \<open>k\<close> counts from the
  end, and the position is clipped to the frame.
\<close>

definition slice_pos :: "int \<Rightarrow> nat \<Rightarrow> nat" where
  "slice_pos k n = (if k < 0 then nat (max 0 (int n + k)) else min (nat k) n)"

definition iloc_to :: "int \<Rightarrow> 'a list \<Rightarrow> 'a list" where
  "iloc_to k df = take (slice_pos k (length df)) df"

definition iloc_from :: "int \<Rightarrow> 'a list \<Rightarrow> 'a list" where
  "iloc_from k df = drop (slice_pos k (length df)) df"

text \<open>
  One value of \<open>combined_df\<close>: the frame a flush builds, with the variables it is
  labelled by. \<open>seg_total\<close> is the value of \<open>total_duration\<close> when the flush is decided
  (line 117, before the reset of line 127 or 140), and \<open>seg_final\<close> is \<open>different_id\<close>
  at the flush.
\<close>

record 'm segment =
  seg_chamber :: int
  seg_number :: int
  seg_session :: int
  seg_rows :: "'m event_row list"
  seg_total :: int
  seg_final :: bool

text \<open>
  The variables of the loop, the trace of flushed frames (\<open>emitted\<close>), the calls of
  \<open>to_csv\<close> in order (\<open>written\<close>) and the lines printed.
\<close>

record 'm vars =
  session_count :: int
  segment_count :: int
  idx :: nat
  dfs :: "'m event_row list list"
  total_duration :: int
  emitted :: "'m segment list"
  written :: "(string \<times> 'm event_row list) list"
  printed :: "string list"

text \<open>\<open>pd.concat\<close> raises ValueError on an empty list of frames.\<close>

definition pd_concat :: "'a list list \<Rightarrow> py_error + 'a list" where
  "pd_concat fs = (if fs = [] then Inl ValueError else Inr (concat fs))"

text \<open>Lines 104-111: append the frame, split when the accumulator reaches the sample.\<close>

definition append_frames ::
  "int \<Rightarrow> int \<Rightarrow> int \<Rightarrow> 'a list \<Rightarrow> 'a list list \<Rightarrow> 'a list list" where
  "append_frames time_sample tot d df fs =
     (if tot \<ge> time_sample then
        (let time_diff = tot - time_sample + 1;
             idx_sep = d - time_diff
         in fs @ [iloc_to idx_sep df, iloc_from idx_sep df])
      else fs @ [df])"

text \<open>Lines 144-149: write the frame when it has rows, print the message otherwise.\<close>

definition save_segment ::
  "string \<Rightarrow> int \<Rightarrow> int \<Rightarrow> int \<Rightarrow> 'm event_row list \<Rightarrow> 'm vars \<Rightarrow> 'm vars" where
  "save_segment result_dir c seg_no sess_no combined_df v =
     (if length combined_df > 0 then
        (let session_key = ''Chamber_'' @ str_int c @ ''_Segment_'' @ str_int seg_no;
             csv_filename = os_path_join result_dir (session_key @ ''.csv'')
         in v\<lparr>written := written v @ [(csv_filename, combined_df)]\<rparr>)
      else
        v\<lparr>printed := printed v @
            [''No data found for ChamberID '' @ str_int c @ '' in session '' @
             str_int sess_no @ ''. Skipping...'']\<rparr>)"

text \<open>
  One pass through the body of \<open>while(True)\<close> (lines 66-153). The result is the error
  raised, or the variables after the pass and whether \<open>break\<close> was reached.
  \<open>time_diff\<close> is read at line 129 only when \<open>total_duration > time_sample\<close>, that is
  after line 105 has set it in the same pass.
\<close>

definition body ::
  "'m event_row list \<Rightarrow> string \<Rightarrow> int \<Rightarrow> session list \<Rightarrow> 'm vars \<Rightarrow>
   py_error + ('m vars \<times> bool)" where
  "body con result_dir time_sample all_active_sessions v =
     (let len = length all_active_sessions;
          sc = session_count v + 1
      in if idx v \<ge> len then Inl IndexError
      else
        let row = all_active_sessions ! idx v;
            next_row = (if int (idx v) < int len - 1
                        then Some (all_active_sessions ! (idx v + 1)) else None);
            df = data_query con row;
            i = idx v + 1;
            tot = total_duration v + duration_seconds row;
            time_diff = tot - time_sample + 1;
            fs = append_frames time_sample tot (duration_seconds row) df (dfs v);
            all_session_processed = (i \<ge> len);
            different_id = (case next_row of
                              Some nr \<Rightarrow> chamber_id row \<noteq> chamber_id nr
                            | None \<Rightarrow> True);
            time_exceed = (tot > time_sample);
            time_equal = (tot = time_sample);
            v1 = v\<lparr>session_count := sc, idx := i, dfs := fs, total_duration := tot\<rparr>
        in if time_exceed \<or> time_equal \<or> different_id \<or> all_session_processed then
             (if time_exceed \<and> \<not> different_id then
                (case pd_concat (butlast fs) of
                   Inl e \<Rightarrow> Inl e
                 | Inr combined_df \<Rightarrow>
                     Inr (save_segment result_dir (chamber_id row) (segment_count v + 1) sc
                            combined_df
                            (v1\<lparr>segment_count := segment_count v + 1,
                                dfs := [last fs],
                                total_duration := time_diff,
                                emitted := emitted v @
                                  [\<lparr>seg_chamber = chamber_id row,
                                    seg_number = segment_count v + 1,
                                    seg_session = sc,
                                    seg_rows = combined_df,
                                    seg_total = tot,
                                    seg_final = different_id\<rparr>]\<rparr>),
                          all_session_processed))
              else
                (case pd_concat fs of
                   Inl e \<Rightarrow> Inl e
                 | Inr combined_df \<Rightarrow>
                     Inr (save_segment result_dir (chamber_id row) 0 sc combined_df
                            (v1\<lparr>segment_count := 0,
                                dfs := [],
                                total_duration := 0,
                                emitted := emitted v @
                                  [\<lparr>seg_chamber = chamber_id row,
                                    seg_number = 0,
                                    seg_session = sc,
                                    seg_rows = combined_df,
                                    seg_total = tot,
                                    seg_final = different_id\<rparr>]\<rparr>),
                          all_session_processed)))
           else Inr (v1, False))"

function (sequential) loop ::
  "'m event_row list \<Rightarrow> string \<Rightarrow> int \<Rightarrow> session list \<Rightarrow> 'm vars \<Rightarrow> py_error + 'm vars" where
  "loop con result_dir time_sample all_active_sessions v =
     (case body con result_dir time_sample all_active_sessions v of
        Inl e \<Rightarrow> Inl e
      | Inr (v', brk) \<Rightarrow>
          if brk then Inr v'
          else loop con result_dir time_sample all_active_sessions v')"
  by pat_completeness auto
termination
proof (relation "measure (\<lambda>(con, d, T, ss, v). length ss - idx v)", goal_cases)
  case 1
  show ?case by simp
next
  case (2 con d T ss v x2 v' brk)
  then have "body con d T ss v = Inr (v', False)" by simp
  then have "idx v' = Suc (idx v) \<and> Suc (idx v) < length ss"
    by (auto simp: body_def save_segment_def Let_def split: if_splits sum.splits)
  then show ?case by simp arith
qed

declare loop.simps [simp del]

text \<open>
  \<open>extract_chamber_ch4(con, result_dir, time_sample)\<close>: the session query, then the
  loop from the initial variables, then the closing line.
\<close>

definition init_vars :: "session list \<Rightarrow> 'm vars" where
  "init_vars all_active_sessions =
     \<lparr>session_count = 0, segment_count = 0, idx = 0, dfs = [], total_duration = 0,
      emitted = [], written = [],
      printed = [''Fetching all of the active sessions...'',
                 ''Found '' @ str_nat (length all_active_sessions) @ '' active sessions'',
                 ''Fetching data of the active sessions...'']\<rparr>"

definition extract_chamber_ch4 ::
  "'m event_row list \<Rightarrow> string \<Rightarrow> int \<Rightarrow> py_error + 'm vars" where
  "extract_chamber_ch4 con result_dir time_sample =
     (let all_active_sessions = fetch_all_sessions con
      in case loop con result_dir time_sample all_active_sessions
                (init_vars all_active_sessions) of
           Inl e \<Rightarrow> Inl e
         | Inr v \<Rightarrow>
             Inr (v\<lparr>printed := printed v @
                    [''Total sessions processed: '' @ str_int (session_count v)]\<rparr>))"

text \<open>The first \<open>n\<close> passes through the loop, to look at the variables in between.\<close>

fun passes ::
  "nat \<Rightarrow> 'm event_row list \<Rightarrow> string \<Rightarrow> int \<Rightarrow> session list \<Rightarrow> 'm vars \<Rightarrow>
   py_error + ('m vars \<times> bool)" where
  "passes 0 con result_dir time_sample ss v = Inr (v, False)"
| "passes (Suc n) con result_dir time_sample ss v =
     (case body con result_dir time_sample ss v of
        Inl e \<Rightarrow> Inl e
      | Inr (v', brk) \<Rightarrow>
          if brk then Inr (v', True) else passes n con result_dir time_sample ss v')"

text \<open>
  Notions the properties are stated with: \<open>different_id\<close> of line 116 at a position, the
  rows of the flushed frames labelled with a chamber, the rows of the materialised sessions
  of a chamber, the path a frame is saved under, and the message for a frame without rows.
\<close>

definition different_id_at :: "session list \<Rightarrow> nat \<Rightarrow> bool" where
  "different_id_at ss i =
     (if int i < int (length ss) - 1 then chamber_id (ss ! i) \<noteq> chamber_id (ss ! (i + 1))
      else True)"

definition segment_rows :: "int \<Rightarrow> 'm segment list \<Rightarrow> 'm event_row list" where
  "segment_rows c gs = concat (map seg_rows (filter (\<lambda>g. seg_chamber g = c) gs))"

definition session_rows :: "'m event_row list \<Rightarrow> int \<Rightarrow> session list \<Rightarrow> 'm event_row list" where
  "session_rows con c ss = concat (map (data_query con) (filter (\<lambda>s. chamber_id s = c) ss))"

definition segment_path :: "string \<Rightarrow> 'm segment \<Rightarrow> string" where
  "segment_path result_dir g =
     os_path_join result_dir
       (''Chamber_'' @ str_int (seg_chamber g) @ ''_Segment_'' @ str_int (seg_number g) @ ''.csv'')"

definition skip_message :: "'m segment \<Rightarrow> string" where
  "skip_message g =
     ''No data found for ChamberID '' @ str_int (seg_chamber g) @ '' in session '' @
     str_int (seg_session g) @ ''. Skipping...''"

text \<open>
  The rows waiting in the buffer for a chamber, and the invariant of the loop for the
  conservation of rows: the buffer holds rows only while the session read last and the
  next one are of the same chamber, and for every chamber the rows flushed so far followed
  by the rows waiting are the rows of the sessions read so far.
\<close>

definition pending_rows :: "session list \<Rightarrow> int \<Rightarrow> 'm vars \<Rightarrow> 'm event_row list" where
  "pending_rows ss c v =
     (if dfs v \<noteq> [] \<and> chamber_id (ss ! (idx v - 1)) = c then concat (dfs v) else [])"

definition conserved :: "'m event_row list \<Rightarrow> session list \<Rightarrow> 'm vars \<Rightarrow> bool" where
  "conserved con ss v \<longleftrightarrow>
     (dfs v \<noteq> [] \<longrightarrow> 0 < idx v \<and> idx v < length ss \<and>
                     chamber_id (ss ! (idx v - 1)) = chamber_id (ss ! idx v)) \<and>
     (\<forall>c. segment_rows c (emitted v) @ pending_rows ss c v =
          session_rows con c (take (idx v) ss))"

text \<open>
  The invariant for what is saved and printed: the files written are the flushed frames
  that have rows, under their paths, and the lines printed after the opening ones are the
  messages for the flushed frames without rows.
\<close>

definition reported :: "string \<Rightarrow> session list \<Rightarrow> 'm vars \<Rightarrow> bool" where
  "reported result_dir ss v \<longleftrightarrow>
     written v = map (\<lambda>g. (segment_path result_dir g, seg_rows g))
                   (filter (\<lambda>g. seg_rows g \<noteq> []) (emitted v)) \<and>
     printed v = printed (init_vars ss :: 'm vars) @
                   map skip_message (filter (\<lambda>g. seg_rows g = []) (emitted v))"

text \<open>
  The seconds of data a frame holds: the number of adjacent rows whose timestamps are one
  second apart. For a chamber sampled once a second this is the time its rows cover, the
  gaps between sessions left out: a whole session of \<open>n\<close> seconds has \<open>n + 1\<close> rows and
  holds \<open>n\<close> seconds.
\<close>

fun steps :: "int list \<Rightarrow> nat" where
  "steps (a # b # ts) = (if b = a + 1 then 1 else 0) + steps (b # ts)"
| "steps ts = 0"

definition seconds_covered :: "'m event_row list \<Rightarrow> nat" where
  "seconds_covered df = steps (map TIMESTAMP df)"


text \<open>The file system after a sequence of \<open>to_csv\<close> calls: a later write replaces the file.\<close>

definition files_after :: "(string \<times> 'a) list \<Rightarrow> string \<Rightarrow> 'a option" where
  "files_after ws = map_of (rev ws)"

section \<open>The plain variant: the loop of \<open>extract_ch4_2.py\<close>\<close>

record 'm vars_2 =
  session_count_2 :: int
  written_2 :: "(string \<times> 'm event_row list) list"
  printed_2 :: "string list"

text \<open>The body of the \<open>for\<close> loop (lines 59-95) at index \<open>i\<close>.\<close>

definition body_2 ::
  "'m event_row list \<Rightarrow> string \<Rightarrow> session list \<Rightarrow> 'm vars_2 \<Rightarrow> nat \<Rightarrow> 'm vars_2" where
  "body_2 con result_dir all_active_sessions v i =
     (let row_1 = all_active_sessions ! i;
          df = data_query con row_1
      in if length df > 0 then
           (let session_key = ''Chamber_'' @ str_int (chamber_id row_1) @ ''_Session_'' @ str_nat i;
                csv_filename = os_path_join result_dir (session_key @ ''.csv'')
            in v\<lparr>session_count_2 := session_count_2 v + 1,
                 written_2 := written_2 v @ [(csv_filename, df)]\<rparr>)
         else
           v\<lparr>printed_2 := printed_2 v @
               [''No data found for ChamberID '' @ str_int (chamber_id row_1) @
                '' in session '' @ str_nat i @ ''. Skipping...'']\<rparr>)"

definition init_vars_2 :: "session list \<Rightarrow> 'm vars_2" where
  "init_vars_2 all_active_sessions =
     \<lparr>session_count_2 = 0, written_2 = [],
      printed_2 = [''Fetching all of the active sessions...'',
                   ''Found '' @ str_nat (length all_active_sessions) @ '' active sessions'']\<rparr>"

definition loop_2 ::
  "'m event_row list \<Rightarrow> string \<Rightarrow> session list \<Rightarrow> 'm vars_2" where
  "loop_2 con result_dir all_active_sessions =
     foldl (body_2 con result_dir all_active_sessions) (init_vars_2 all_active_sessions)
       [0..<length all_active_sessions]"

definition extract_chamber_ch4_2 :: "'m event_row list \<Rightarrow> string \<Rightarrow> 'm vars_2" where
  "extract_chamber_ch4_2 con result_dir =
     (let v = loop_2 con result_dir (fetch_all_sessions con)
      in v\<lparr>printed_2 := printed_2 v @
             [''Total sessions processed: '' @ str_int (session_count_2 v)]\<rparr>)"

text \<open>The path of the file for the session at index \<open>i\<close>, and the message when it has no rows.\<close>

definition session_path_2 :: "string \<Rightarrow> session list \<Rightarrow> nat \<Rightarrow> string" where
  "session_path_2 result_dir ss i =
     os_path_join result_dir
       (''Chamber_'' @ str_int (chamber_id (ss ! i)) @ ''_Session_'' @ str_nat i @ ''.csv'')"

definition skip_message_2 :: "session list \<Rightarrow> nat \<Rightarrow> string" where
  "skip_message_2 ss i =
     ''No data found for ChamberID '' @ str_int (chamber_id (ss ! i)) @ '' in session '' @
     str_nat i @ ''. Skipping...''"

section \<open>Session detection of \<open>extract_chambers.py\<close> (the query \<open>active_periods_query\<close>)\<close>

text \<open>
  The CTEs are those of \<open>extract_ch4.py\<close>; the final SELECT joins every start with every
  end of the chamber that is later (\<open>JOIN session_ends e ON s.ChamberID = e.ChamberID
  WHERE e.end_time > s.start_time\<close>), ordered by chamber and start.
\<close>

definition chamber_periods :: "'m event_row list \<Rightarrow> int \<Rightarrow> session list" where
  "chamber_periods con c =
     concat (map (\<lambda>s. map (\<lambda>e. \<lparr>chamber_id = c, start_time = s, end_time = e,
                                  duration_seconds = e - s\<rparr>)
                         (filter (\<lambda>e. e > s) (session_end con c)))
                 (session_start con c))"

definition active_periods_query :: "'m event_row list \<Rightarrow> session list" where
  "active_periods_query con =
     concat (map (chamber_periods con) (sort (remdups (map ChamberID con))))"

text \<open>Two sessions of one chamber overlap when each starts no later than the other ends.\<close>

definition overlap :: "session \<Rightarrow> session \<Rightarrow> bool" where
  "overlap a b =
     (chamber_id a = chamber_id b \<and> start_time a \<le> end_time b \<and> start_time b \<le> end_time a)"

section \<open>The validating variant: \<open>extract_ch4_3.py\<close>\<close>

record session_3 = session +
  session_num :: int

text \<open>\<open>ChamberStatus = 1.0\<close> and \<open>x != 1.0 OR x IS NULL\<close>\<close>

definition status_one :: "int option \<Rightarrow> bool" where
  "status_one s = (s = Some 1)"

definition not_one_or_null :: "int option \<Rightarrow> bool" where
  "not_one_or_null s = (case s of None \<Rightarrow> True | Some v \<Rightarrow> v \<noteq> 1)"

text \<open>The CTE \<open>session_boundaries\<close>: the WHERE clause and the CASE, in its order.\<close>

datatype boundary = START | END

definition boundary_type :: "int option \<Rightarrow> int option \<Rightarrow> int option \<Rightarrow> boundary option" where
  "boundary_type st p n =
     (if status_one st \<and> not_one_or_null p then Some START
      else if status_one st \<and> not_one_or_null n then Some END
      else None)"

definition session_boundaries :: "'m event_row list \<Rightarrow> int \<Rightarrow> (int \<times> boundary option) list" where
  "session_boundaries con c =
     map (\<lambda>(r, p, n). (TIMESTAMP r, boundary_type (ChamberStatus r) p n))
       (filter (\<lambda>(r, p, n). status_one (ChamberStatus r) \<and>
                            (not_one_or_null p \<or> not_one_or_null n))
          (active_sessions con c))"

definition session_starts_3 :: "'m event_row list \<Rightarrow> int \<Rightarrow> int list" where
  "session_starts_3 con c =
     map fst (filter (\<lambda>(t, b). b = Some START) (session_boundaries con c))"

definition session_ends_3 :: "'m event_row list \<Rightarrow> int \<Rightarrow> int list" where
  "session_ends_3 con c =
     map fst (filter (\<lambda>(t, b). b = Some END) (session_boundaries con c))"

text \<open>
  \<open>JOIN session_ends e ON s.ChamberID = e.ChamberID AND s.session_num = e.session_num
  WHERE s.start_time < e.end_time\<close>: the \<open>k\<close>-th start with the \<open>k\<close>-th end.
\<close>

definition chamber_sessions_3 :: "'m event_row list \<Rightarrow> int \<Rightarrow> session_3 list" where
  "chamber_sessions_3 con c =
     map (\<lambda>(k, s, e). \<lparr>chamber_id = c, start_time = s, end_time = e,
                        duration_seconds = e - s, session_num = int k + 1\<rparr>)
       (filter (\<lambda>(k, s, e). s < e)
          (zip [0..<length (session_starts_3 con c)]
               (zip (session_starts_3 con c) (session_ends_3 con c))))"

definition fetch_all_sessions_3 :: "'m event_row list \<Rightarrow> session_3 list" where
  "fetch_all_sessions_3 con =
     concat (map (chamber_sessions_3 con) (sort (remdups (map ChamberID con))))"

text \<open>
  What the script meets outside itself. A connection is the table \<open>JAAR_raw\<close>
  (\<open>Inr t\<close>), or the exception that \<open>con.execute\<close> raises for the queries of
  \<open>extract_chamber_ch4\<close> when the database cannot answer them (\<open>Inl e\<close>); the
  message of the exception is DuckDB's and comes with the connection. \<open>strftime\<close>
  formats a start time for the file name, \<open>summary\<close> is the text
  \<open>validate_database\<close> prints about a table, and \<open>validation\<close> is what
  \<open>validate_database\<close> returns and prints on a connection whose table cannot be
  read: it depends on the catalogue (\<open>SHOW TABLES\<close>, \<open>DESCRIBE\<close>), which is not
  part of the table.
\<close>

type_synonym 'm connection = "py_error + 'm event_row list"

record 'm world =
  path_exists :: bool
  connect :: "py_error + 'm connection"
  makedirs :: "py_error option"
  open_file :: "string \<Rightarrow> py_error option"
  strftime :: "int \<Rightarrow> string"
  summary :: "'m event_row list \<Rightarrow> string list"
  validation :: "bool \<times> string list"

definition execute :: "'m connection \<Rightarrow> ('m event_row list \<Rightarrow> 'a) \<Rightarrow> py_error + 'a" where
  "execute con q =
     (case con of
        Inl e \<Rightarrow> Inl e
      | Inr t \<Rightarrow> Inr (q t))"

record 'm vars_3 =
  session_count_3 :: int
  skipped_count :: int
  written_3 :: "(string \<times> string list \<times> 'm event_row list) list"
  printed_3 :: "string list"

definition data_query_3 :: "'m event_row list \<Rightarrow> session_3 \<Rightarrow> 'm event_row list" where
  "data_query_3 t row =
     sort_key TIMESTAMP
       (filter (\<lambda>r. ChamberID r = chamber_id row \<and> TIMESTAMP r \<ge> start_time row
                    \<and> TIMESTAMP r \<le> end_time row) t)"

text \<open>
  The body of the \<open>for\<close> loop (lines 86-160) at index \<open>i\<close>. Timestamps are not strings
  here, so the conversion of lines 96-109 does not raise; the exceptions of the second
  \<open>try\<close> are those of the query and of opening the file.
\<close>

definition body_3 ::
  "'m world \<Rightarrow> 'm connection \<Rightarrow> string \<Rightarrow> session_3 list \<Rightarrow> 'm vars_3 \<Rightarrow> nat \<Rightarrow> 'm vars_3" where
  "body_3 w con result_dir all_active_sessions v i =
     (let row = all_active_sessions ! i;
          failed = (\<lambda>e sc. v\<lparr>session_count_3 := sc, skipped_count := skipped_count v + 1,
                      printed_3 := printed_3 v @
                        [''Error processing session '' @ str_nat i @ '': '' @ str_error e]\<rparr>)
      in case execute con (\<lambda>t. data_query_3 t row) of
           Inl e \<Rightarrow> failed e (session_count_3 v)
         | Inr df \<Rightarrow>
             if length df > 0 then
               (let sc = session_count_3 v + 1;
                    start_str = strftime w (start_time row);
                    session_key = ''Chamber_'' @ str_int (chamber_id row) @ ''_Session_'' @
                                  str_int (session_num row) @ ''_'' @ start_str;
                    csv_filename = os_path_join result_dir (session_key @ ''.csv'')
                in case open_file w csv_filename of
                     Some e \<Rightarrow> failed e sc
                   | None \<Rightarrow>
                       v\<lparr>session_count_3 := sc,
                         written_3 := written_3 v @
                           [(csv_filename,
                             [''# Chamber ID: '' @ str_int (chamber_id row),
                              ''# Session Number: '' @ str_int (session_num row),
                              ''# Start Time: '' @ str_int (start_time row),
                              ''# End Time: '' @ str_int (end_time row),
                              ''# Duration: '' @ str_int (duration_seconds row) @ ''.0 seconds'',
                              ''# Data Points: '' @ str_nat (length df),
                              ''#''],
                             df)],
                         printed_3 := printed_3 v @
                           [''Saved: '' @ session_key @ ''.csv ('' @ str_nat (length df) @
                            '' records, '' @ str_int (duration_seconds row) @ ''.0s)'']\<rparr>)
             else
               v\<lparr>skipped_count := skipped_count v + 1,
                 printed_3 := printed_3 v @
                   [''No data found for ChamberID '' @ str_int (chamber_id row) @
                    '', session '' @ str_int (session_num row) @ ''. Skipping...'']\<rparr>)"

text \<open>
  \<open>extract_chamber_ch4(con, result_dir)\<close> of \<open>extract_ch4_3.py\<close>. Only \<open>os.makedirs\<close>
  is outside a \<open>try\<close>; a failing session query is caught at lines 73-75, reported, and
  the function returns.
\<close>

definition extract_chamber_ch4_3 ::
  "'m world \<Rightarrow> 'm connection \<Rightarrow> string \<Rightarrow> py_error + 'm vars_3" where
  "extract_chamber_ch4_3 w con result_dir =
     (case makedirs w of
        Some e \<Rightarrow> Inl e
      | None \<Rightarrow>
          (let v0 = \<lparr>session_count_3 = 0, skipped_count = 0, written_3 = [],
                     printed_3 = [''Fetching all active sessions...'']\<rparr>
           in case execute con fetch_all_sessions_3 of
                Inl e \<Rightarrow>
                  Inr (v0\<lparr>printed_3 := printed_3 v0 @
                          [''Error fetching sessions: '' @ str_error e]\<rparr>)
              | Inr all_active_sessions \<Rightarrow>
                  (let v1 = v0\<lparr>printed_3 := printed_3 v0 @
                              [''Found '' @ str_nat (length all_active_sessions) @
                               '' active sessions'']\<rparr>
                   in if length all_active_sessions = 0 then
                        Inr (v1\<lparr>printed_3 := printed_3 v1 @ [''No active sessions found.'']\<rparr>)
                      else
                        (let v2 = foldl (body_3 w con result_dir all_active_sessions) v1
                                    [0..<length all_active_sessions]
                         in Inr (v2\<lparr>printed_3 := printed_3 v2 @
                                   [[], ''=== Summary ==='',
                                    ''Total sessions found: '' @
                                      str_nat (length all_active_sessions),
                                    ''Successfully processed: '' @ str_int (session_count_3 v2),
                                    ''Skipped due to errors: '' @ str_int (skipped_count v2),
                                    ''CSV files saved to: '' @ result_dir]\<rparr>)))))"

text \<open>\<open>validate_database(con)\<close>: its result and what it prints.\<close>

definition validate_database :: "'m world \<Rightarrow> 'm connection \<Rightarrow> bool \<times> string list" where
  "validate_database w con =
     (case con of
        Inl e \<Rightarrow> validation w
      | Inr t \<Rightarrow> (True, ''Database validation successful:'' # summary w t))"

text \<open>
  The script run as a program (lines 211-244): the exit status, the lines printed, the
  files written and whether the connection was closed. \<open>exit(1)\<close> raises
  \<open>SystemExit\<close>, which \<open>except Exception\<close> does not catch; a run that reaches the end
  of the script exits with status 0.
\<close>

record 'm run_3 =
  exit_status :: int
  stdout :: "string list"
  files :: "(string \<times> string list \<times> 'm event_row list) list"
  closed :: bool

definition main_3 :: "'m world \<Rightarrow> string \<Rightarrow> string \<Rightarrow> bool \<Rightarrow> 'm run_3" where
  "main_3 w db result_dir validate =
     (if \<not> path_exists w then
        \<lparr>exit_status = 1,
         stdout = [''Error: Database file '' @ [CHR 0x27] @ db @ [CHR 0x27] @ '' not found''],
         files = [], closed = False\<rparr>
      else
        case connect w of
          Inl e \<Rightarrow>
            \<lparr>exit_status = 1, stdout = [''Fatal error: '' @ str_error e],
             files = [], closed = False\<rparr>
        | Inr con \<Rightarrow>
            (let out = [''Connected to database: '' @ db];
                 (valid, lines) = (if validate then validate_database w con else (True, []))
             in if \<not> valid then
                  \<lparr>exit_status = 1, stdout = out @ lines, files = [], closed = True\<rparr>
                else
                  case extract_chamber_ch4_3 w con result_dir of
                    Inl e \<Rightarrow>
                      \<lparr>exit_status = 1,
                       stdout = out @ lines @ [''Fatal error: '' @ str_error e],
                       files = [], closed = True\<rparr>
                  | Inr v \<Rightarrow>
                      \<lparr>exit_status = 0, stdout = out @ lines @ printed_3 v,
                       files = written_3 v, closed = True\<rparr>))"

section \<open>Example tables\<close>

definition sample :: "int \<Rightarrow> int \<Rightarrow> int \<Rightarrow> unit event_row" where
  "sample c t st =
     \<lparr>TIMESTAMP = t, CH4 = (), ChamberStatus = Some st, ChamberID = c, ChamberTC = ()\<rparr>"

text \<open>
  Chamber 7 sampled once a second from 0 to 55, inactive at 16, 28 and 50: four sessions,
  of 15, 10, 20 and 4 seconds.
\<close>

definition chamber7_table :: "unit event_row list" where
  "chamber7_table =
     map (\<lambda>t. sample 7 t (if t = 16 \<or> t = 28 \<or> t = 50 then 0 else 1)) [0..55]"

text \<open>
  Chamber 7 with sessions of 150, 100, 200 and 4 seconds, of which only a few samples
  were recorded.
\<close>

definition chamber7_sparse :: "unit event_row list" where
  "chamber7_sparse =
     [sample 7 0 1, sample 7 150 1, sample 7 151 0, sample 7 152 1, sample 7 252 1,
      sample 7 253 0, sample 7 254 1, sample 7 304 1, sample 7 354 1, sample 7 404 1,
      sample 7 454 1, sample 7 455 0, sample 7 456 1, sample 7 460 1]"

text \<open>Chamber 7 with two sessions of two seconds each.\<close>

definition twice_two_table :: "unit event_row list" where
  "twice_two_table =
     [sample 7 0 1, sample 7 1 1, sample 7 2 1, sample 7 3 0,
      sample 7 4 1, sample 7 5 1, sample 7 6 1]"


text \<open>Chamber 1 with two sessions, active at 1, 2 and at 4, 5.\<close>

definition two_sessions_table :: "unit event_row list" where
  "two_sessions_table =
     [sample 1 1 1, sample 1 2 1, sample 1 3 0, sample 1 4 1, sample 1 5 1]"

text \<open>Chamber 1 active for a single sample at 1, then from 3 to 4.\<close>

definition single_sample_table :: "unit event_row list" where
  "single_sample_table =
     [sample 1 1 1, sample 1 2 0, sample 1 3 1, sample 1 4 1, sample 1 5 0]"

text \<open>Chamber 7 with one session of 500 seconds, sampled every 100 seconds.\<close>

definition long_session_table :: "unit event_row list" where
  "long_session_table =
     [sample 7 0 1, sample 7 100 1, sample 7 200 1, sample 7 300 1, sample 7 400 1,
      sample 7 500 1]"

text \<open>Chamber 7 active from 0 to 250 in two sessions, then chamber 8.\<close>

definition two_chambers_table :: "unit event_row list" where
  "two_chambers_table =
     [sample 7 0 1, sample 7 150 1, sample 7 151 0, sample 7 152 1, sample 7 252 1,
      sample 8 300 1, sample 8 310 1]"

text \<open>
  A database file that exists and opens but holds no table \<open>JAAR_raw\<close>: a query on the
  table raises a catalog error, and \<open>validate_database\<close> finds no such table. Nothing
  else fails.
\<close>

definition no_table_world :: "unit world" where
  "no_table_world =
     \<lparr>path_exists = True,
      connect = Inr (Inl (DatabaseError
                  ''Catalog Error: Table with name JAAR_raw does not exist!'')),
      makedirs = None, open_file = (\<lambda>p. None), strftime = str_int, summary = (\<lambda>t. []),
      validation = (False, [''Error: Table '' @ [CHR 0x27] @ ''JAAR_raw'' @ [CHR 0x27] @
                            '' not found in database''])\<rparr>"

section \<open>Facts about the loop body\<close>

lemma save_segment_fields [simp]:
  "idx (save_segment d c n s df v) = idx v"
  "dfs (save_segment d c n s df v) = dfs v"
  "total_duration (save_segment d c n s df v) = total_duration v"
  "emitted (save_segment d c n s df v) = emitted v"
  "session_count (save_segment d c n s df v) = session_count v"
  "segment_count (save_segment d c n s df v) = segment_count v"
  by (simp_all add: save_segment_def Let_def)

lemma iloc_split [simp]: "iloc_to k df @ iloc_from k df = df"
  by (simp add: iloc_to_def iloc_from_def)

lemma concat_append_frames [simp]:
  "concat (append_frames T tot d df fs) = concat fs @ df"
  by (simp add: append_frames_def Let_def)

lemma append_frames_ne [simp]: "append_frames T tot d df fs \<noteq> []"
  by (simp add: append_frames_def Let_def)

lemma append_frames_overflow:
  "tot > T \<Longrightarrow> append_frames T tot d df fs =
     fs @ [iloc_to (d - (tot - T + 1)) df, iloc_from (d - (tot - T + 1)) df]"
  by (simp add: append_frames_def Let_def)

lemma append_frames_below: "tot < T \<Longrightarrow> append_frames T tot d df fs = fs @ [df]"
  by (simp add: append_frames_def)

lemma body_accumulate:
  assumes "idx v < length ss"
    and "total_duration v + duration_seconds (ss ! idx v) < T"
    and "\<not> different_id_at ss (idx v)"
  shows "body con d T ss v =
     Inr (v\<lparr>session_count := session_count v + 1, idx := Suc (idx v),
            dfs := dfs v @ [data_query con (ss ! idx v)],
            total_duration := total_duration v + duration_seconds (ss ! idx v)\<rparr>, False)"
  using assms
  by (simp add: body_def Let_def different_id_at_def append_frames_below split: if_splits)

lemma body_overflow:
  assumes "idx v < length ss"
    and "total_duration v + duration_seconds (ss ! idx v) > T"
    and "\<not> different_id_at ss (idx v)"
  shows "body con d T ss v =
     Inr (save_segment d (chamber_id (ss ! idx v)) (segment_count v + 1) (session_count v + 1)
            (concat (dfs v) @
             iloc_to (T - total_duration v - 1) (data_query con (ss ! idx v)))
            (v\<lparr>session_count := session_count v + 1, idx := Suc (idx v),
               segment_count := segment_count v + 1,
               dfs := [iloc_from (T - total_duration v - 1) (data_query con (ss ! idx v))],
               total_duration := total_duration v + duration_seconds (ss ! idx v) - T + 1,
               emitted := emitted v @
                 [\<lparr>seg_chamber = chamber_id (ss ! idx v),
                   seg_number = segment_count v + 1,
                   seg_session = session_count v + 1,
                   seg_rows = concat (dfs v) @
                     iloc_to (T - total_duration v - 1) (data_query con (ss ! idx v)),
                   seg_total = total_duration v + duration_seconds (ss ! idx v),
                   seg_final = False\<rparr>]\<rparr>), False)"
proof -
  have k: "duration_seconds (ss ! idx v) -
           (total_duration v + duration_seconds (ss ! idx v) - T + 1) = T - total_duration v - 1"
    by simp
  show ?thesis
    using assms
    by (simp add: body_def Let_def different_id_at_def append_frames_overflow pd_concat_def
        butlast_append k split: if_splits)
qed

lemma body_full:
  assumes "idx v < length ss"
    and "total_duration v + duration_seconds (ss ! idx v) = T \<or> different_id_at ss (idx v)"
  shows "body con d T ss v =
     Inr (save_segment d (chamber_id (ss ! idx v)) 0 (session_count v + 1)
            (concat (dfs v) @ data_query con (ss ! idx v))
            (v\<lparr>session_count := session_count v + 1, idx := Suc (idx v),
               segment_count := 0, dfs := [], total_duration := 0,
               emitted := emitted v @
                 [\<lparr>seg_chamber = chamber_id (ss ! idx v),
                   seg_number = 0,
                   seg_session = session_count v + 1,
                   seg_rows = concat (dfs v) @ data_query con (ss ! idx v),
                   seg_total = total_duration v + duration_seconds (ss ! idx v),
                   seg_final = different_id_at ss (idx v)\<rparr>]\<rparr>),
          Suc (idx v) \<ge> length ss)"
  using assms
  by (auto simp: body_def Let_def different_id_at_def pd_concat_def split: if_splits)

lemma body_ok:
  assumes "idx v < length ss"
  shows "\<exists>v'. body con d T ss v = Inr (v', Suc (idx v) \<ge> length ss) \<and> idx v' = Suc (idx v)"
proof -
  let ?tot = "total_duration v + duration_seconds (ss ! idx v)"
  consider (acc) "?tot < T" "\<not> different_id_at ss (idx v)"
    | (ovf) "?tot > T" "\<not> different_id_at ss (idx v)"
    | (full) "?tot = T \<or> different_id_at ss (idx v)"
    by linarith
  then show ?thesis
  proof cases
    case acc
    from acc(2) assms have "\<not> Suc (idx v) \<ge> length ss"
      by (auto simp: different_id_at_def split: if_splits)
    with body_accumulate [OF assms acc, of con d] show ?thesis by simp
  next
    case ovf
    from ovf(2) assms have "\<not> Suc (idx v) \<ge> length ss"
      by (auto simp: different_id_at_def split: if_splits)
    with body_overflow [OF assms ovf, of con d] show ?thesis by simp
  next
    case full
    with body_full [OF assms full, of con d] show ?thesis by simp
  qed
qed

lemma loop_ok:
  "idx v < length ss \<Longrightarrow> \<exists>v'. loop con d T ss v = Inr v'"
proof (induction "length ss - idx v" arbitrary: v rule: less_induct)
  case less
  from body_ok [OF less.prems, of con d T] obtain v' where
    b: "body con d T ss v = Inr (v', Suc (idx v) \<ge> length ss)" and i: "idx v' = Suc (idx v)"
    by blast
  show ?case
  proof (cases "Suc (idx v) \<ge> length ss")
    case True
    with b show ?thesis by (subst loop.simps) simp
  next
    case False
    then have "idx v' < length ss" using i by simp
    moreover have "length ss - idx v' < length ss - idx v" using i less.prems by simp
    ultimately obtain w where "loop con d T ss v' = Inr w" using less.hyps by blast
    with b False show ?thesis by (subst loop.simps) simp
  qed
qed

lemma loop_empty: "loop con d T [] v = Inl IndexError"
  by (subst loop.simps) (simp add: body_def Let_def)

lemma body_Inr:
  assumes "body con d T ss v = Inr (v', b)"
  shows "idx v < length ss \<and> idx v' = Suc (idx v) \<and> b = (Suc (idx v) \<ge> length ss)"
proof -
  have lt: "idx v < length ss"
  proof (rule ccontr)
    assume "\<not> idx v < length ss"
    then have "body con d T ss v = Inl IndexError" by (simp add: body_def Let_def)
    with assms show False by simp
  qed
  from body_ok [OF lt, of con d T] assms lt show ?thesis by auto
qed

text \<open>An invariant of the body that holds before the loop holds after it.\<close>

lemma loop_invariant:
  assumes "loop con d T ss v = Inr w"
    and "P v"
    and "\<And>u u' b. P u \<Longrightarrow> body con d T ss u = Inr (u', b) \<Longrightarrow> P u'"
  shows "P w"
  using assms(1,2)
proof (induction "length ss - idx v" arbitrary: v rule: less_induct)
  case less
  from less.prems(1) obtain v' brk where b: "body con d T ss v = Inr (v', brk)"
    by (subst (asm) loop.simps) (auto split: sum.splits)
  have P': "P v'" using assms(3) [OF less.prems(2) b] .
  note i = body_Inr [OF b]
  show ?case
  proof (cases brk)
    case True
    with b less.prems(1) have "w = v'" by (subst (asm) loop.simps) simp
    with P' show ?thesis by simp
  next
    case False
    with b less.prems(1) have l: "loop con d T ss v' = Inr w" by (subst (asm) loop.simps) simp
    have "length ss - idx v' < length ss - idx v" using i by auto
    from less.hyps [OF this l P'] show ?thesis .
  qed
qed

text \<open>When the loop returns, every session has been read and the buffer is empty.\<close>

lemma loop_final:
  assumes "loop con d T ss v = Inr w"
  shows "idx w = length ss \<and> dfs w = [] \<and> total_duration w = 0"
  using assms
proof (induction "length ss - idx v" arbitrary: v rule: less_induct)
  case less
  from less.prems(1) obtain v' brk where b: "body con d T ss v = Inr (v', brk)"
    by (subst (asm) loop.simps) (auto split: sum.splits)
  note i = body_Inr [OF b]
  show ?case
  proof (cases brk)
    case True
    with b less.prems(1) have w: "w = v'" by (subst (asm) loop.simps) simp
    from True i have "different_id_at ss (idx v)" by (simp add: different_id_at_def)
    from body_full [OF _ disjI2 [OF this], of con d T] i b
    have "dfs v' = [] \<and> total_duration v' = 0" by simp
    with w i True show ?thesis by simp
  next
    case False
    with b less.prems(1) have l: "loop con d T ss v' = Inr w" by (subst (asm) loop.simps) simp
    have "length ss - idx v' < length ss - idx v" using i by auto
    from less.hyps [OF this l] show ?thesis .
  qed
qed

text \<open>
  C10. When the session query returns no session, the loop reads
  \<open>all_active_sessions.iloc[0]\<close> before any exit test and the run ends with an
  IndexError; when it returns at least one session, the loop ends at its \<open>break\<close> and
  the run returns.
\<close>

theorem no_sessions_index_error:
  "(fetch_all_sessions con = [] \<longrightarrow> extract_chamber_ch4 con d T = Inl IndexError) \<and>
   (fetch_all_sessions con \<noteq> [] \<longrightarrow> (\<exists>v. extract_chamber_ch4 con d T = Inr v))"
proof (intro conjI impI)
  assume "fetch_all_sessions con = []"
  then show "extract_chamber_ch4 con d T = Inl IndexError"
    by (simp add: extract_chamber_ch4_def Let_def loop_empty)
next
  assume ne: "fetch_all_sessions con \<noteq> []"
  then have "idx (init_vars (fetch_all_sessions con) :: 'a vars) < length (fetch_all_sessions con)"
    by (simp add: init_vars_def)
  from loop_ok [OF this, of con d T] obtain w where
    "loop con d T (fetch_all_sessions con) (init_vars (fetch_all_sessions con)) = Inr w" by blast
  then show "\<exists>v. extract_chamber_ch4 con d T = Inr v"
    by (simp add: extract_chamber_ch4_def Let_def)
qed

theorem no_sessions_index_error_witness:
  "fetch_all_sessions ([] :: unit event_row list) = [] \<and>
   extract_chamber_ch4 ([] :: unit event_row list) ''result'' 400 = Inl IndexError \<and>
   fetch_all_sessions long_session_table \<noteq> [] \<and>
   (\<exists>v. extract_chamber_ch4 long_session_table ''result'' 400 = Inr v)"
proof -
  have e: "fetch_all_sessions ([] :: unit event_row list) = []" by code_simp
  have n: "fetch_all_sessions long_session_table \<noteq> []" by code_simp
  from no_sessions_index_error [of "[] :: unit event_row list" "''result''" 400]
       no_sessions_index_error [of long_session_table "''result''" 400] e n
  show ?thesis by blast
qed

lemma body_elim [consumes 1, case_names acc ovf full]:
  assumes "body con d T ss v = Inr (v', b)"
  obtains
    (acc) "idx v < length ss" "total_duration v + duration_seconds (ss ! idx v) < T"
      "\<not> different_id_at ss (idx v)" "\<not> b"
      "v' = v\<lparr>session_count := session_count v + 1, idx := Suc (idx v),
              dfs := dfs v @ [data_query con (ss ! idx v)],
              total_duration := total_duration v + duration_seconds (ss ! idx v)\<rparr>"
  | (ovf) g where "idx v < length ss" "total_duration v + duration_seconds (ss ! idx v) > T"
      "\<not> different_id_at ss (idx v)" "\<not> b"
      "g = \<lparr>seg_chamber = chamber_id (ss ! idx v),
            seg_number = segment_count v + 1,
            seg_session = session_count v + 1,
            seg_rows = concat (dfs v) @
                     iloc_to (T - total_duration v - 1) (data_query con (ss ! idx v)),
            seg_total = total_duration v + duration_seconds (ss ! idx v),
            seg_final = False\<rparr>"
      "v' = save_segment d (seg_chamber g) (seg_number g) (seg_session g) (seg_rows g)
            (v\<lparr>session_count := session_count v + 1, idx := Suc (idx v),
               segment_count := segment_count v + 1,
               dfs := [iloc_from (T - total_duration v - 1) (data_query con (ss ! idx v))],
               total_duration := total_duration v + duration_seconds (ss ! idx v) - T + 1,
               emitted := emitted v @ [g]\<rparr>)"
  | (full) g where "idx v < length ss"
      "total_duration v + duration_seconds (ss ! idx v) = T \<or> different_id_at ss (idx v)"
      "b = (Suc (idx v) \<ge> length ss)"
      "g = \<lparr>seg_chamber = chamber_id (ss ! idx v),
            seg_number = 0,
            seg_session = session_count v + 1,
            seg_rows = concat (dfs v) @ data_query con (ss ! idx v),
            seg_total = total_duration v + duration_seconds (ss ! idx v),
            seg_final = different_id_at ss (idx v)\<rparr>"
      "v' = save_segment d (seg_chamber g) (seg_number g) (seg_session g) (seg_rows g)
            (v\<lparr>session_count := session_count v + 1, idx := Suc (idx v),
               segment_count := 0, dfs := [], total_duration := 0,
               emitted := emitted v @ [g]\<rparr>)"
proof -
  note i = body_Inr [OF assms]
  then have lt: "idx v < length ss" by simp
  let ?tot = "total_duration v + duration_seconds (ss ! idx v)"
  consider (a) "?tot < T" "\<not> different_id_at ss (idx v)"
    | (o) "?tot > T" "\<not> different_id_at ss (idx v)"
    | (f) "?tot = T \<or> different_id_at ss (idx v)"
    by linarith
  then show thesis
  proof cases
    case a
    from body_accumulate [OF lt a, of con d] assms show thesis
      by (intro acc [OF lt a]) simp_all
  next
    case o
    from body_overflow [OF lt o, of con d] assms show thesis
      by (intro ovf [OF lt o _ refl]) simp_all
  next
    case f
    from body_full [OF lt f, of con d] assms i show thesis
      by (intro full [OF lt f _ refl]) simp_all
  qed
qed

lemma twice_two_sessions:
  "fetch_all_sessions twice_two_table =
     [\<lparr>chamber_id = 7, start_time = 0, end_time = 2, duration_seconds = 2\<rparr>,
      \<lparr>chamber_id = 7, start_time = 4, end_time = 6, duration_seconds = 2\<rparr>]"
  by code_simp

lemma chamber7_sessions:
  "fetch_all_sessions chamber7_table =
     [\<lparr>chamber_id = 7, start_time = 0, end_time = 15, duration_seconds = 15\<rparr>,
      \<lparr>chamber_id = 7, start_time = 17, end_time = 27, duration_seconds = 10\<rparr>,
      \<lparr>chamber_id = 7, start_time = 29, end_time = 49, duration_seconds = 20\<rparr>,
      \<lparr>chamber_id = 7, start_time = 51, end_time = 55, duration_seconds = 4\<rparr>]"
  by code_simp

text \<open>
  C6. When the accumulated duration equals the sample after a session is appended, the
  pass flushes the whole buffer with all rows of that session as one frame, numbered 0,
  leaves the buffer empty and the accumulator at 0, and saves the frame when it has rows.
\<close>

theorem exact_fill_flushes_all:
  assumes "idx v < length ss"
    and "total_duration v + duration_seconds (ss ! idx v) = T"
  shows "\<exists>v'. body con d T ss v = Inr (v', Suc (idx v) \<ge> length ss) \<and>
           dfs v' = [] \<and> total_duration v' = 0 \<and>
           emitted v' = emitted v @
             [\<lparr>seg_chamber = chamber_id (ss ! idx v), seg_number = 0,
               seg_session = session_count v + 1,
               seg_rows = concat (dfs v) @ data_query con (ss ! idx v),
               seg_total = T, seg_final = different_id_at ss (idx v)\<rparr>] \<and>
           (concat (dfs v) @ data_query con (ss ! idx v) \<noteq> [] \<longrightarrow>
              written v' = written v @
                [(os_path_join d (''Chamber_'' @ str_int (chamber_id (ss ! idx v)) @
                                  ''_Segment_'' @ str_int 0 @ ''.csv''),
                  concat (dfs v) @ data_query con (ss ! idx v))])"
  using body_full [OF assms(1) disjI1 [OF assms(2)], of con d] assms(2)
  by (auto simp: save_segment_def Let_def)

theorem exact_fill_flushes_all_witness:
  "idx (init_vars (fetch_all_sessions twice_two_table) :: unit vars)
     < length (fetch_all_sessions twice_two_table) \<and>
   total_duration (init_vars (fetch_all_sessions twice_two_table) :: unit vars) +
     duration_seconds (fetch_all_sessions twice_two_table !
        idx (init_vars (fetch_all_sessions twice_two_table) :: unit vars)) = 2 \<and>
   (\<exists>v'. body twice_two_table ''result'' 2 (fetch_all_sessions twice_two_table)
            (init_vars (fetch_all_sessions twice_two_table)) = Inr (v', False) \<and>
          dfs v' = [] \<and> total_duration v' = 0 \<and>
          map seg_rows (emitted v') = [[sample 7 0 1, sample 7 1 1, sample 7 2 1]] \<and>
          written v' = [(''result/Chamber_7_Segment_0.csv'',
                         [sample 7 0 1, sample 7 1 1, sample 7 2 1])])"
proof -
  let ?S = "fetch_all_sessions twice_two_table"
  let ?v = "init_vars ?S :: unit vars"
  have h1: "idx ?v < length ?S" by (simp add: twice_two_sessions init_vars_def)
  have h2: "total_duration ?v + duration_seconds (?S ! idx ?v) = 2"
    by (simp add: twice_two_sessions init_vars_def)
  have q: "data_query twice_two_table (?S ! idx ?v) = [sample 7 0 1, sample 7 1 1, sample 7 2 1]"
    by code_simp
  have p: "os_path_join ''result'' (''Chamber_'' @ str_int (chamber_id (?S ! idx ?v)) @
             ''_Segment_'' @ str_int 0 @ ''.csv'') = ''result/Chamber_7_Segment_0.csv''"
    by code_simp
  have e: "dfs ?v = []" "emitted ?v = []" "written ?v = []" by (simp_all add: init_vars_def)
  have l: "(Suc (idx ?v) \<ge> length ?S) = False" by (simp add: twice_two_sessions init_vars_def)
  from exact_fill_flushes_all [OF h1 h2, of twice_two_table "''result''"]
  show ?thesis unfolding q p e l using h1 h2 by auto
qed

text \<open>
  C1 (amended). When appending a session makes the accumulated duration \<open>acc\<close> exceed the
  sample \<open>T\<close> while the next session is of the same chamber, and the row index
  \<open>k = duration - (acc - T + 1)\<close> lies within the frame just read, the pass sheds
  \<open>acc - T + 1\<close>: the frame just read is cut at row index \<open>k\<close>, its first \<open>k\<close> rows are
  flushed with the buffer, the rows from \<open>k\<close> on are the new buffer, and the accumulator
  restarts at \<open>acc - T + 1\<close>.
\<close>

theorem overflow_split:
  assumes "idx v < length ss"
    and "\<not> different_id_at ss (idx v)"
    and "acc = total_duration v + duration_seconds (ss ! idx v)"
    and "acc > T"
    and "k = duration_seconds (ss ! idx v) - (acc - T + 1)"
    and "0 \<le> k"
    and "k \<le> int (length (data_query con (ss ! idx v)))"
  shows "\<exists>v'. body con d T ss v = Inr (v', False) \<and>
           total_duration v' = acc - T + 1 \<and>
           dfs v' = [drop (nat k) (data_query con (ss ! idx v))] \<and>
           emitted v' = emitted v @
             [\<lparr>seg_chamber = chamber_id (ss ! idx v), seg_number = segment_count v + 1,
               seg_session = session_count v + 1,
               seg_rows = concat (dfs v) @ take (nat k) (data_query con (ss ! idx v)),
               seg_total = acc, seg_final = False\<rparr>]"
proof -
  have k: "T - total_duration v - 1 = k"
    using assms(3,5) by simp
  have t: "iloc_to k (data_query con (ss ! idx v)) = take (nat k) (data_query con (ss ! idx v))"
    using assms(6,7) by (simp add: iloc_to_def slice_pos_def)
  have f: "iloc_from k (data_query con (ss ! idx v)) = drop (nat k) (data_query con (ss ! idx v))"
    using assms(6,7) by (simp add: iloc_from_def slice_pos_def)
  have o: "total_duration v + duration_seconds (ss ! idx v) > T"
    using assms(3,4) by simp
  show ?thesis
    using body_overflow [OF assms(1) o assms(2), of con d] assms(3)
    unfolding k t f by simp
qed

lemma chamber7_two_passes:
  "passes 2 chamber7_table ''result'' 40 (fetch_all_sessions chamber7_table)
     (init_vars (fetch_all_sessions chamber7_table)) =
   Inr (\<lparr>session_count = 2, segment_count = 0, idx = 2,
         dfs = [data_query chamber7_table (fetch_all_sessions chamber7_table ! 0),
                data_query chamber7_table (fetch_all_sessions chamber7_table ! 1)],
         total_duration = 25, emitted = [], written = [],
         printed = printed (init_vars (fetch_all_sessions chamber7_table) :: unit vars)\<rparr>, False)"
  by code_simp

theorem overflow_split_witness:
  "idx (fst (projr (passes 2 chamber7_table ''result'' 40 (fetch_all_sessions chamber7_table)
          (init_vars (fetch_all_sessions chamber7_table))))) < length (fetch_all_sessions chamber7_table) \<and>
   \<not> different_id_at (fetch_all_sessions chamber7_table) 2 \<and>
   (45 :: int) > 40 \<and> (0 :: int) \<le> 14 \<and>
   14 \<le> int (length (data_query chamber7_table (fetch_all_sessions chamber7_table ! 2))) \<and>
   (\<exists>v'. body chamber7_table ''result'' 40 (fetch_all_sessions chamber7_table)
            (fst (projr (passes 2 chamber7_table ''result'' 40 (fetch_all_sessions chamber7_table)
               (init_vars (fetch_all_sessions chamber7_table))))) = Inr (v', False) \<and>
          total_duration v' = 6 \<and>
          dfs v' = [drop 14 (data_query chamber7_table (fetch_all_sessions chamber7_table ! 2))] \<and>
          map seg_total (emitted v') = [45] \<and>
          map seg_rows (emitted v') =
            [data_query chamber7_table (fetch_all_sessions chamber7_table ! 0) @
             data_query chamber7_table (fetch_all_sessions chamber7_table ! 1) @
             take 14 (data_query chamber7_table (fetch_all_sessions chamber7_table ! 2))])"
proof -
  let ?S = "fetch_all_sessions chamber7_table"
  let ?v = "fst (projr (passes 2 chamber7_table ''result'' 40 ?S (init_vars ?S)))"
  have i: "idx ?v = 2" and t: "total_duration ?v = 25" and e: "emitted ?v = []"
    and b0: "dfs ?v = [data_query chamber7_table (?S ! 0), data_query chamber7_table (?S ! 1)]"
    by (simp_all add: chamber7_two_passes)
  have h1: "idx ?v < length ?S" unfolding i by (simp add: chamber7_sessions)
  have h2': "\<not> different_id_at ?S 2" by (simp add: chamber7_sessions different_id_at_def)
  then have h2: "\<not> different_id_at ?S (idx ?v)" unfolding i .
  have d3: "duration_seconds (?S ! 2) = 20" by (simp add: chamber7_sessions)
  have h3: "(45 :: int) = total_duration ?v + duration_seconds (?S ! idx ?v)"
    unfolding i t d3 by simp
  have h4: "(45 :: int) > 40" by simp
  have h5: "(14 :: int) = duration_seconds (?S ! idx ?v) - (45 - 40 + 1)"
    unfolding i d3 by simp
  have h6: "(0 :: int) \<le> 14" by simp
  have n: "length (data_query chamber7_table (?S ! 2)) = 21" by code_simp
  have h7': "14 \<le> int (length (data_query chamber7_table (?S ! 2)))" unfolding n by simp
  then have h7: "14 \<le> int (length (data_query chamber7_table (?S ! idx ?v)))" unfolding i .
  from overflow_split [OF h1 h2 h3 h4 h5 h6 h7, of "''result''"]
  obtain v' where b: "body chamber7_table ''result'' 40 ?S ?v = Inr (v', False)"
    and td: "total_duration v' = 45 - 40 + 1"
    and df: "dfs v' = [drop (nat 14) (data_query chamber7_table (?S ! idx ?v))]"
    and em: "emitted v' = emitted ?v @
             [\<lparr>seg_chamber = chamber_id (?S ! idx ?v), seg_number = segment_count ?v + 1,
               seg_session = session_count ?v + 1,
               seg_rows = concat (dfs ?v) @
                 take (nat 14) (data_query chamber7_table (?S ! idx ?v)),
               seg_total = 45, seg_final = False\<rparr>]"
    by blast
  have f1: "total_duration v' = 6" unfolding td by simp
  have f2: "dfs v' = [drop 14 (data_query chamber7_table (?S ! 2))]"
    unfolding df i by simp
  have f3: "map seg_total (emitted v') = [45]" unfolding em e by simp
  have f4: "map seg_rows (emitted v') =
            [data_query chamber7_table (?S ! 0) @ data_query chamber7_table (?S ! 1) @
             take 14 (data_query chamber7_table (?S ! 2))]"
    unfolding em e b0 i by simp
  show ?thesis
  proof (intro conjI exI [of _ v'])
    show "idx ?v < length ?S" by (rule h1)
    show "\<not> different_id_at ?S 2" by (rule h2')
    show "(45 :: int) > 40" by (rule h4)
    show "(0 :: int) \<le> 14" by (rule h6)
    show "14 \<le> int (length (data_query chamber7_table (?S ! 2)))" by (rule h7')
    show "body chamber7_table ''result'' 40 ?S ?v = Inr (v', False)" by (rule b)
    show "total_duration v' = 6" by (rule f1)
    show "dfs v' = [drop 14 (data_query chamber7_table (?S ! 2))]" by (rule f2)
    show "map seg_total (emitted v') = [45]" by (rule f3)
    show "map seg_rows (emitted v') =
            [data_query chamber7_table (?S ! 0) @ data_query chamber7_table (?S ! 1) @
             take 14 (data_query chamber7_table (?S ! 2))]" by (rule f4)
  qed
qed

text \<open>
  The claim as written fails: with a sample of 40 and sessions of 15, 10 and 20 seconds
  the third frame is cut at row 14, not 15, and the accumulator restarts at 6, not 5; with
  a sample of 400 and sessions of 150, 100 and 200 seconds it restarts at 51, not 50.
\<close>

theorem overflow_split_counterexample:
  "total_duration (fst (projr (passes 3 chamber7_table ''result'' 40
      (fetch_all_sessions chamber7_table) (init_vars (fetch_all_sessions chamber7_table))))) = 6 \<and>
   6 \<noteq> (15 + 10 + 20 - 40 :: int) \<and>
   dfs (fst (projr (passes 3 chamber7_table ''result'' 40
      (fetch_all_sessions chamber7_table) (init_vars (fetch_all_sessions chamber7_table))))) =
     [drop 14 (data_query chamber7_table (fetch_all_sessions chamber7_table ! 2))] \<and>
   drop 14 (data_query chamber7_table (fetch_all_sessions chamber7_table ! 2)) \<noteq>
   drop (20 - (15 + 10 + 20 - 40)) (data_query chamber7_table (fetch_all_sessions chamber7_table ! 2)) \<and>
   total_duration (fst (projr (passes 3 chamber7_sparse ''result'' 400
      (fetch_all_sessions chamber7_sparse) (init_vars (fetch_all_sessions chamber7_sparse))))) = 51 \<and>
   51 \<noteq> (150 + 100 + 200 - 400 :: int)"
  by code_simp

text \<open>
  The cut for a sample of 400 after 250 seconds have accumulated, when a session of 200
  seconds with at least 149 rows is read.
\<close>

lemma overflow_split_400:
  assumes "idx v < length ss"
    and "\<not> different_id_at ss (idx v)"
    and "total_duration v = 250"
    and "duration_seconds (ss ! idx v) = 200"
    and "149 \<le> length (data_query con (ss ! idx v))"
  shows "\<exists>v'. body con d 400 ss v = Inr (v', False) \<and>
           total_duration v' = 51 \<and>
           dfs v' = [drop 149 (data_query con (ss ! idx v))] \<and>
           map seg_rows (emitted v') =
             map seg_rows (emitted v) @
             [concat (dfs v) @ take 149 (data_query con (ss ! idx v))]"
proof -
  have o: "total_duration v + duration_seconds (ss ! idx v) > 400"
    using assms(3,4) by simp
  have t: "iloc_to 149 (data_query con (ss ! idx v)) = take 149 (data_query con (ss ! idx v))"
    using assms(5) by (simp add: iloc_to_def slice_pos_def)
  have f: "iloc_from 149 (data_query con (ss ! idx v)) = drop 149 (data_query con (ss ! idx v))"
    using assms(5) by (simp add: iloc_from_def slice_pos_def)
  show ?thesis
    using body_overflow [OF assms(1) o assms(2), of con d] t f
    by (simp add: assms(3,4))
qed

section \<open>Invariants of the loop\<close>

lemma segment_rows_snoc:
  "segment_rows c (gs @ [g]) = segment_rows c gs @ (if seg_chamber g = c then seg_rows g else [])"
  by (simp add: segment_rows_def)

lemma session_rows_take_Suc:
  "i < length ss \<Longrightarrow>
   session_rows con c (take (Suc i) ss) =
     session_rows con c (take i ss) @
     (if chamber_id (ss ! i) = c then data_query con (ss ! i) else [])"
  by (simp add: session_rows_def take_Suc_conv_app_nth)

lemma pending_rows_current:
  assumes "conserved con ss v"
  shows "pending_rows ss c v = (if chamber_id (ss ! idx v) = c then concat (dfs v) else [])"
  using assms by (cases "dfs v = []") (auto simp: conserved_def pending_rows_def)

lemma same_chamber_next:
  "\<not> different_id_at ss i \<Longrightarrow> Suc i < length ss \<and> chamber_id (ss ! i) = chamber_id (ss ! Suc i)"
  by (auto simp: different_id_at_def split: if_splits)

lemma conserved_init: "conserved con ss (init_vars ss)"
  by (simp add: conserved_def init_vars_def pending_rows_def segment_rows_def session_rows_def)

lemma conserved_body:
  assumes c: "conserved con ss v" and b: "body con d T ss v = Inr (v', brk)"
  shows "conserved con ss v'"
proof -
  let ?i = "idx v"
  let ?df = "data_query con (ss ! ?i)"
  have inv: "segment_rows c (emitted v) @
             (if chamber_id (ss ! ?i) = c then concat (dfs v) else []) =
             session_rows con c (take ?i ss)" for c
  proof -
    from c have "segment_rows c (emitted v) @ pending_rows ss c v =
                 session_rows con c (take ?i ss)"
      by (simp add: conserved_def)
    then show ?thesis unfolding pending_rows_current [OF c] .
  qed
  from b show ?thesis
  proof (cases rule: body_elim)
    case acc
    note n = same_chamber_next [OF acc(3)]
    have i': "idx v' = Suc ?i" and d': "dfs v' = dfs v @ [?df]" and e': "emitted v' = emitted v"
      by (simp_all add: acc(5))
    have p': "pending_rows ss c v' =
              (if chamber_id (ss ! ?i) = c then concat (dfs v) @ ?df else [])" for c
      by (simp add: pending_rows_def i' d')
    have "segment_rows c (emitted v') @ pending_rows ss c v' =
          session_rows con c (take (idx v') ss)" for c
      unfolding p' i' e' session_rows_take_Suc [OF acc(1)] inv [of c, symmetric] by simp
    with n show ?thesis by (simp add: conserved_def i' d')
  next
    case (ovf g)
    note n = same_chamber_next [OF ovf(3)]
    let ?k = "T - total_duration v - 1"
    have i': "idx v' = Suc ?i" and d': "dfs v' = [iloc_from ?k ?df]"
      and e': "emitted v' = emitted v @ [g]"
      by (simp_all add: ovf(6))
    have g: "seg_chamber g = chamber_id (ss ! ?i)" "seg_rows g = concat (dfs v) @ iloc_to ?k ?df"
      by (simp_all add: ovf(5))
    have p': "pending_rows ss c v' =
              (if chamber_id (ss ! ?i) = c then iloc_from ?k ?df else [])" for c
      by (simp add: pending_rows_def i' d')
    have "segment_rows c (emitted v') @ pending_rows ss c v' =
          session_rows con c (take (idx v') ss)" for c
      unfolding p' i' e' session_rows_take_Suc [OF ovf(1)] inv [of c, symmetric]
        segment_rows_snoc g by simp
    with n show ?thesis by (simp add: conserved_def i' d')
  next
    case (full g)
    have i': "idx v' = Suc ?i" and d': "dfs v' = []" and e': "emitted v' = emitted v @ [g]"
      by (simp_all add: full(5))
    have g: "seg_chamber g = chamber_id (ss ! ?i)" "seg_rows g = concat (dfs v) @ ?df"
      by (simp_all add: full(4))
    have p': "pending_rows ss c v' = []" for c
      by (simp add: pending_rows_def d')
    have "segment_rows c (emitted v') @ pending_rows ss c v' =
          session_rows con c (take (idx v') ss)" for c
      unfolding p' i' e' session_rows_take_Suc [OF full(1)] inv [of c, symmetric]
        segment_rows_snoc g by simp
    then show ?thesis by (simp add: conserved_def d')
  qed
qed

text \<open>After the loop the rows flushed for a chamber are the rows of its sessions, in order.\<close>

lemma loop_rows:
  assumes "loop con d T ss (init_vars ss) = Inr w"
  shows "segment_rows c (emitted w) = session_rows con c ss"
proof -
  have "conserved con ss w"
    by (rule loop_invariant [OF assms, where P = "conserved con ss"])
       (rule conserved_init, rule conserved_body)
  moreover from loop_final [OF assms] have "idx w = length ss" "dfs w = []" by simp_all
  ultimately show ?thesis by (simp add: conserved_def pending_rows_def)
qed

lemma reported_init: "reported d ss (init_vars ss)"
  by (simp add: reported_def init_vars_def)

lemma reported_save:
  assumes "reported d ss v" and "written u = written v" and "printed u = printed v"
    and "emitted u = emitted v @ [g]"
  shows "reported d ss (save_segment d (seg_chamber g) (seg_number g) (seg_session g) (seg_rows g) u)"
  using assms
  by (simp add: reported_def save_segment_def Let_def segment_path_def skip_message_def)

lemma reported_body:
  assumes r: "reported d ss v" and b: "body con d T ss v = Inr (v', brk)"
  shows "reported d ss v'"
  using b
proof (cases rule: body_elim)
  case acc
  with r show ?thesis by (simp add: reported_def)
next
  case (ovf g)
  show ?thesis unfolding ovf(6) by (rule reported_save [OF r]) simp_all
next
  case (full g)
  show ?thesis unfolding full(5) by (rule reported_save [OF r]) simp_all
qed

lemma written_rows:
  assumes "reported d ss v"
  shows "concat (map snd (written v)) = concat (map seg_rows (emitted v))"
proof -
  have "concat (map seg_rows (filter (\<lambda>g. seg_rows g \<noteq> []) gs)) = concat (map seg_rows gs)"
    for gs :: "'a segment list"
    by (induction gs) auto
  with assms show ?thesis by (simp add: reported_def comp_def)
qed

text \<open>All rows flushed, whatever the chamber, are all rows of the sessions read.\<close>

lemma all_rows_body:
  assumes "concat (map seg_rows (emitted v)) @ concat (dfs v) =
           concat (map (data_query con) (take (idx v) ss))"
    and b: "body con d T ss v = Inr (v', brk)"
  shows "concat (map seg_rows (emitted v')) @ concat (dfs v') =
         concat (map (data_query con) (take (idx v') ss))"
  using b
proof (cases rule: body_elim)
  case acc
  with assms(1) show ?thesis by (simp add: take_Suc_conv_app_nth)
next
  case (ovf g)
  with assms(1) show ?thesis by (simp add: take_Suc_conv_app_nth)
next
  case (full g)
  with assms(1) show ?thesis by (simp add: take_Suc_conv_app_nth)
qed

lemma loop_all_rows:
  assumes "loop con d T ss (init_vars ss) = Inr w"
  shows "concat (map seg_rows (emitted w)) = concat (map (data_query con) ss)"
proof -
  have "concat (map seg_rows (emitted w)) @ concat (dfs w) =
        concat (map (data_query con) (take (idx w) ss))"
    by (rule loop_invariant [OF assms, where P = "\<lambda>u. concat (map seg_rows (emitted u)) @ concat (dfs u) =
        concat (map (data_query con) (take (idx u) ss))"])
       (simp add: init_vars_def, rule all_rows_body)
  with loop_final [OF assms] show ?thesis by simp
qed

section \<open>Runs of the segmenting variant\<close>

lemma loop_returns:
  assumes "ss \<noteq> []"
  obtains w where "loop con d T ss (init_vars ss) = Inr w"
proof -
  from assms have "idx (init_vars ss :: 'a vars) < length ss" by (simp add: init_vars_def)
  from loop_ok [OF this] that show thesis by blast
qed

lemma data_query_chamber: "r \<in> set (data_query con s) \<Longrightarrow> ChamberID r = chamber_id s"
  by (simp add: data_query_def)

lemma session_rows_chamber: "r \<in> set (session_rows con c ss) \<Longrightarrow> ChamberID r = c"
  by (auto simp: session_rows_def dest: data_query_chamber)

lemma seg_rows_subset:
  "g \<in> set gs \<Longrightarrow> set (seg_rows g) \<subseteq> set (segment_rows (seg_chamber g) gs)"
  by (auto simp: segment_rows_def)

text \<open>
  C2. For every table, sample and non-empty list of sessions the run returns, and for
  every chamber the rows of the frames flushed for it are, as a multiset, the rows of the
  sessions materialised for it; the rows handed to \<open>to_csv\<close> are, as a multiset, all rows
  materialised. The cut position is arbitrary here: zero, negative or past the end.
\<close>

theorem rows_conserved:
  assumes "ss \<noteq> []"
  shows "\<exists>v. loop con d T ss (init_vars ss) = Inr v \<and>
           (\<forall>c. mset (segment_rows c (emitted v)) = mset (session_rows con c ss)) \<and>
           mset (concat (map snd (written v))) = mset (concat (map (data_query con) ss))"
proof -
  from loop_returns [OF assms] obtain w where l: "loop con d T ss (init_vars ss) = Inr w" .
  have "reported d ss w"
    by (rule loop_invariant [OF l, where P = "reported d ss"])
       (rule reported_init, rule reported_body)
  from written_rows [OF this] loop_all_rows [OF l]
  have "concat (map snd (written w)) = concat (map (data_query con) ss)" by simp
  with l loop_rows [OF l] show ?thesis by auto
qed

theorem rows_conserved_witness:
  "fetch_all_sessions chamber7_table \<noteq> [] \<and>
   (\<exists>v. loop chamber7_table ''result'' 40 (fetch_all_sessions chamber7_table)
           (init_vars (fetch_all_sessions chamber7_table)) = Inr v \<and>
         mset (segment_rows 7 (emitted v)) =
           mset (session_rows chamber7_table 7 (fetch_all_sessions chamber7_table)))"
proof -
  have ne: "fetch_all_sessions chamber7_table \<noteq> []" by (simp add: chamber7_sessions)
  from rows_conserved [OF ne, of chamber7_table "''result''" 40] ne
  show ?thesis by blast
qed

subsection \<open>The seconds of data in a frame\<close>




lemma seconds_covered_Nil [simp]: "seconds_covered [] = 0"
  by (simp add: seconds_covered_def)













text \<open>
  C5. A pass whose next session is of another chamber flushes the whole buffer with the
  rows just read, whatever the accumulated duration, and leaves the buffer empty and the
  accumulator at 0. So in a run every row of a flushed frame is of the chamber the frame is
  labelled with, and the rows flushed for a chamber are the rows of its sessions in their
  order.
\<close>

theorem chamber_change_flushes:
  "(Suc (idx v) < length ss \<and> chamber_id (ss ! idx v) \<noteq> chamber_id (ss ! Suc (idx v)) \<longrightarrow>
      (\<exists>v'. body con d T ss v = Inr (v', False) \<and> dfs v' = [] \<and> total_duration v' = 0 \<and>
             emitted v' = emitted v @
               [\<lparr>seg_chamber = chamber_id (ss ! idx v), seg_number = 0,
                 seg_session = session_count v + 1,
                 seg_rows = concat (dfs v) @ data_query con (ss ! idx v),
                 seg_total = total_duration v + duration_seconds (ss ! idx v),
                 seg_final = True\<rparr>])) \<and>
   (ss \<noteq> [] \<longrightarrow>
      (\<exists>w. loop con d T ss (init_vars ss) = Inr w \<and>
            (\<forall>g \<in> set (emitted w). \<forall>r \<in> set (seg_rows g). ChamberID r = seg_chamber g) \<and>
            (\<forall>c. segment_rows c (emitted w) = session_rows con c ss)))"
proof (intro conjI impI)
  assume a: "Suc (idx v) < length ss \<and> chamber_id (ss ! idx v) \<noteq> chamber_id (ss ! Suc (idx v))"
  then have lt: "idx v < length ss" and df: "different_id_at ss (idx v)"
    by (simp_all add: different_id_at_def)
  from a have nb: "(Suc (idx v) \<ge> length ss) = False" by simp
  from body_full [OF lt disjI2 [OF df], of con d T] df
  show "\<exists>v'. body con d T ss v = Inr (v', False) \<and> dfs v' = [] \<and> total_duration v' = 0 \<and>
             emitted v' = emitted v @
               [\<lparr>seg_chamber = chamber_id (ss ! idx v), seg_number = 0,
                 seg_session = session_count v + 1,
                 seg_rows = concat (dfs v) @ data_query con (ss ! idx v),
                 seg_total = total_duration v + duration_seconds (ss ! idx v),
                 seg_final = True\<rparr>]"
    unfolding nb by simp
next
  assume "ss \<noteq> []"
  from loop_returns [OF this] obtain w where l: "loop con d T ss (init_vars ss) = Inr w" .
  note rows = loop_rows [OF l]
  have "ChamberID r = seg_chamber g" if "g \<in> set (emitted w)" "r \<in> set (seg_rows g)" for g r
  proof -
    from seg_rows_subset [OF that(1)] that(2)
    have "r \<in> set (segment_rows (seg_chamber g) (emitted w))" by blast
    then show ?thesis unfolding rows by (rule session_rows_chamber)
  qed
  with l rows
  show "\<exists>w. loop con d T ss (init_vars ss) = Inr w \<and>
            (\<forall>g \<in> set (emitted w). \<forall>r \<in> set (seg_rows g). ChamberID r = seg_chamber g) \<and>
            (\<forall>c. segment_rows c (emitted w) = session_rows con c ss)"
    by blast
qed

lemma two_chambers_sessions:
  "fetch_all_sessions two_chambers_table =
     [\<lparr>chamber_id = 7, start_time = 0, end_time = 150, duration_seconds = 150\<rparr>,
      \<lparr>chamber_id = 7, start_time = 152, end_time = 252, duration_seconds = 100\<rparr>,
      \<lparr>chamber_id = 8, start_time = 300, end_time = 310, duration_seconds = 10\<rparr>]"
  by code_simp

lemma two_chambers_one_pass:
  "passes 1 two_chambers_table ''result'' 400 (fetch_all_sessions two_chambers_table)
     (init_vars (fetch_all_sessions two_chambers_table)) =
   Inr (\<lparr>session_count = 1, segment_count = 0, idx = 1,
         dfs = [[sample 7 0 1, sample 7 150 1]],
         total_duration = 150, emitted = [], written = [],
         printed = printed (init_vars (fetch_all_sessions two_chambers_table) :: unit vars)\<rparr>, False)"
  by code_simp

lemma two_chambers_loop:
  "emitted (projr (loop two_chambers_table ''result'' 400 (fetch_all_sessions two_chambers_table)
      (init_vars (fetch_all_sessions two_chambers_table)))) \<noteq> [] \<and>
   seg_rows (hd (emitted (projr (loop two_chambers_table ''result'' 400
      (fetch_all_sessions two_chambers_table)
      (init_vars (fetch_all_sessions two_chambers_table)))))) \<noteq> []"
  by code_simp

theorem chamber_change_flushes_witness:
  "Suc (idx (fst (projr (passes 1 two_chambers_table ''result'' 400
        (fetch_all_sessions two_chambers_table)
        (init_vars (fetch_all_sessions two_chambers_table))))))
     < length (fetch_all_sessions two_chambers_table) \<and>
   chamber_id (fetch_all_sessions two_chambers_table ! 1) \<noteq>
     chamber_id (fetch_all_sessions two_chambers_table ! 2) \<and>
   (\<exists>v'. body two_chambers_table ''result'' 400 (fetch_all_sessions two_chambers_table)
            (fst (projr (passes 1 two_chambers_table ''result'' 400
               (fetch_all_sessions two_chambers_table)
               (init_vars (fetch_all_sessions two_chambers_table))))) = Inr (v', False) \<and>
          dfs v' = [] \<and> total_duration v' = 0 \<and>
          map seg_total (emitted v') = [250]) \<and>
   fetch_all_sessions two_chambers_table \<noteq> [] \<and>
   segment_rows 7 (emitted (projr (loop two_chambers_table ''result'' 400
       (fetch_all_sessions two_chambers_table)
       (init_vars (fetch_all_sessions two_chambers_table))))) =
     session_rows two_chambers_table 7 (fetch_all_sessions two_chambers_table) \<and>
   ChamberID (hd (seg_rows (hd (emitted (projr (loop two_chambers_table ''result'' 400
       (fetch_all_sessions two_chambers_table)
       (init_vars (fetch_all_sessions two_chambers_table)))))))) =
     seg_chamber (hd (emitted (projr (loop two_chambers_table ''result'' 400
       (fetch_all_sessions two_chambers_table)
       (init_vars (fetch_all_sessions two_chambers_table))))))"
proof -
  let ?S = "fetch_all_sessions two_chambers_table"
  let ?v = "fst (projr (passes 1 two_chambers_table ''result'' 400 ?S (init_vars ?S)))"
  let ?W = "projr (loop two_chambers_table ''result'' 400 ?S (init_vars ?S))"
  have i: "idx ?v = 1" and t: "total_duration ?v = 150" and e: "emitted ?v = []"
    unfolding two_chambers_one_pass by simp_all
  have h1: "Suc (idx ?v) < length ?S" unfolding i by (simp add: two_chambers_sessions)
  have h2': "chamber_id (?S ! 1) \<noteq> chamber_id (?S ! 2)" by (simp add: two_chambers_sessions)
  have h2: "chamber_id (?S ! idx ?v) \<noteq> chamber_id (?S ! Suc (idx ?v))"
    unfolding i using h2' by (simp add: numeral_2_eq_2)
  have d2: "duration_seconds (?S ! 1) = 100" by (simp add: two_chambers_sessions)
  have ne: "?S \<noteq> []" by (simp add: two_chambers_sessions)
  note th = chamber_change_flushes [of ?v ?S two_chambers_table "''result''" 400]
  from th h1 h2
  obtain v' where b: "body two_chambers_table ''result'' 400 ?S ?v = Inr (v', False)"
    and f1: "dfs v' = []" and f2: "total_duration v' = 0"
    and em: "emitted v' = emitted ?v @
               [\<lparr>seg_chamber = chamber_id (?S ! idx ?v), seg_number = 0,
                 seg_session = session_count ?v + 1,
                 seg_rows = concat (dfs ?v) @ data_query two_chambers_table (?S ! idx ?v),
                 seg_total = total_duration ?v + duration_seconds (?S ! idx ?v),
                 seg_final = True\<rparr>]"
    by blast
  have f3: "map seg_total (emitted v') = [250]" unfolding em e i t d2 by simp
  from th ne
  obtain w where l: "loop two_chambers_table ''result'' 400 ?S (init_vars ?S) = Inr w"
    and m: "\<forall>g \<in> set (emitted w). \<forall>r \<in> set (seg_rows g). ChamberID r = seg_chamber g"
    and r: "segment_rows 7 (emitted w) = session_rows two_chambers_table 7 ?S"
    by blast
  from l have w: "?W = w" by simp
  from two_chambers_loop have n1: "emitted w \<noteq> []" and n2: "seg_rows (hd (emitted w)) \<noteq> []"
    unfolding w by simp_all
  from n1 have "hd (emitted w) \<in> set (emitted w)" by simp
  moreover from n2 have "hd (seg_rows (hd (emitted w))) \<in> set (seg_rows (hd (emitted w)))"
    by simp
  ultimately have c: "ChamberID (hd (seg_rows (hd (emitted w)))) = seg_chamber (hd (emitted w))"
    using m by blast
  show ?thesis unfolding w
  proof (intro conjI)
    show "Suc (idx ?v) < length ?S" by (rule h1)
    show "chamber_id (?S ! 1) \<noteq> chamber_id (?S ! 2)" by (rule h2')
    show "\<exists>v'. body two_chambers_table ''result'' 400 ?S ?v = Inr (v', False) \<and>
          dfs v' = [] \<and> total_duration v' = 0 \<and> map seg_total (emitted v') = [250]"
      using b f1 f2 f3 by (intro exI [of _ v'] conjI)
    show "?S \<noteq> []" by (rule ne)
    show "segment_rows 7 (emitted w) = session_rows two_chambers_table 7 ?S" by (rule r)
    show "ChamberID (hd (seg_rows (hd (emitted w)))) = seg_chamber (hd (emitted w))" by (rule c)
  qed
qed

section \<open>Results without rows\<close>

lemma foldl_body_2:
  "written_2 (foldl (body_2 con d ss) v0 [0..<n]) =
     written_2 v0 @ map (\<lambda>i. (session_path_2 d ss i, data_query con (ss ! i)))
                      (filter (\<lambda>i. data_query con (ss ! i) \<noteq> []) [0..<n]) \<and>
   printed_2 (foldl (body_2 con d ss) v0 [0..<n]) =
     printed_2 v0 @ map (skip_message_2 ss) (filter (\<lambda>i. data_query con (ss ! i) = []) [0..<n])"
  by (induction n) (simp_all add: body_2_def Let_def session_path_2_def skip_message_2_def)

text \<open>
  C9. In the segmenting variant a run over a non-empty list of sessions reads every
  session, saves exactly the flushed frames that have rows, and prints the skip message
  for exactly those that have none. In the plain variant the loop saves exactly the
  sessions whose frame has rows and prints the skip message for exactly those whose frame
  has none, going through all sessions. A result without rows raises nothing.
\<close>

theorem empty_results_skipped:
  "(ss \<noteq> [] \<longrightarrow>
      (\<exists>v. loop (con :: 'a event_row list) d T ss (init_vars ss) = Inr v \<and>
            idx v = length ss \<and>
            written v = map (\<lambda>g. (segment_path d g, seg_rows g))
                          (filter (\<lambda>g. seg_rows g \<noteq> []) (emitted v)) \<and>
            printed v = printed (init_vars ss :: 'a vars) @
                          map skip_message (filter (\<lambda>g. seg_rows g = []) (emitted v)))) \<and>
   written_2 (loop_2 con d ss) =
     map (\<lambda>i. (session_path_2 d ss i, data_query con (ss ! i)))
       (filter (\<lambda>i. data_query con (ss ! i) \<noteq> []) [0..<length ss]) \<and>
   printed_2 (loop_2 con d ss) =
     printed_2 (init_vars_2 ss :: 'a vars_2) @
     map (skip_message_2 ss) (filter (\<lambda>i. data_query con (ss ! i) = []) [0..<length ss])"
proof (intro conjI impI)
  assume "ss \<noteq> []"
  from loop_returns [OF this] obtain w :: "'a vars"
    where l: "loop con d T ss (init_vars ss) = Inr w" .
  have "reported d ss w"
    by (rule loop_invariant [OF l, where P = "reported d ss"])
       (rule reported_init, rule reported_body)
  with l loop_final [OF l]
  show "\<exists>v. loop con d T ss (init_vars ss) = Inr v \<and> idx v = length ss \<and>
            written v = map (\<lambda>g. (segment_path d g, seg_rows g))
                          (filter (\<lambda>g. seg_rows g \<noteq> []) (emitted v)) \<and>
            printed v = printed (init_vars ss :: 'a vars) @
                          map skip_message (filter (\<lambda>g. seg_rows g = []) (emitted v))"
    by (auto simp: reported_def)
next
  show "written_2 (loop_2 con d ss) =
     map (\<lambda>i. (session_path_2 d ss i, data_query con (ss ! i)))
       (filter (\<lambda>i. data_query con (ss ! i) \<noteq> []) [0..<length ss])"
    using foldl_body_2 [of con d ss "init_vars_2 ss" "length ss"]
    by (simp add: loop_2_def init_vars_2_def)
next
  show "printed_2 (loop_2 con d ss) =
     printed_2 (init_vars_2 ss :: 'a vars_2) @
     map (skip_message_2 ss) (filter (\<lambda>i. data_query con (ss ! i) = []) [0..<length ss])"
    using foldl_body_2 [of con d ss "init_vars_2 ss" "length ss"]
    by (simp add: loop_2_def)
qed

lemma twice_two_sample_one:
  "emitted (projr (loop twice_two_table ''result'' 1 (fetch_all_sessions twice_two_table)
      (init_vars (fetch_all_sessions twice_two_table)))) =
     [\<lparr>seg_chamber = 7, seg_number = 1, seg_session = 1, seg_rows = [],
       seg_total = 2, seg_final = False\<rparr>,
      \<lparr>seg_chamber = 7, seg_number = 0, seg_session = 2,
       seg_rows = [sample 7 0 1, sample 7 1 1, sample 7 2 1,
                   sample 7 4 1, sample 7 5 1, sample 7 6 1],
       seg_total = 4, seg_final = True\<rparr>]"
  by code_simp

lemma segment_path_example:
  "segment_path ''result''
     \<lparr>seg_chamber = 7, seg_number = 0, seg_session = 2,
       seg_rows = [sample 7 0 1, sample 7 1 1, sample 7 2 1,
                   sample 7 4 1, sample 7 5 1, sample 7 6 1],
       seg_total = 4, seg_final = True\<rparr> = ''result/Chamber_7_Segment_0.csv''"
  by code_simp

lemma skip_message_example:
  "skip_message \<lparr>seg_chamber = 7, seg_number = 1, seg_session = 1,
       seg_rows = ([] :: unit event_row list), seg_total = 2, seg_final = False\<rparr> =
     ''No data found for ChamberID 7 in session 1. Skipping...''"
  by code_simp

theorem empty_results_skipped_witness:
  "fetch_all_sessions twice_two_table \<noteq> [] \<and>
   map seg_rows (emitted (projr (loop twice_two_table ''result'' 1
      (fetch_all_sessions twice_two_table) (init_vars (fetch_all_sessions twice_two_table))))) =
     [[], [sample 7 0 1, sample 7 1 1, sample 7 2 1, sample 7 4 1, sample 7 5 1, sample 7 6 1]] \<and>
   written (projr (loop twice_two_table ''result'' 1
      (fetch_all_sessions twice_two_table) (init_vars (fetch_all_sessions twice_two_table)))) =
     [(''result/Chamber_7_Segment_0.csv'',
       [sample 7 0 1, sample 7 1 1, sample 7 2 1, sample 7 4 1, sample 7 5 1, sample 7 6 1])] \<and>
   printed (projr (loop twice_two_table ''result'' 1
      (fetch_all_sessions twice_two_table) (init_vars (fetch_all_sessions twice_two_table)))) =
     printed (init_vars (fetch_all_sessions twice_two_table) :: unit vars) @
     [''No data found for ChamberID 7 in session 1. Skipping...''] \<and>
   idx (projr (loop twice_two_table ''result'' 1
      (fetch_all_sessions twice_two_table) (init_vars (fetch_all_sessions twice_two_table)))) =
     length (fetch_all_sessions twice_two_table)"
proof -
  let ?S = "fetch_all_sessions twice_two_table"
  let ?V = "projr (loop twice_two_table ''result'' 1 ?S (init_vars ?S))"
  have ne: "?S \<noteq> []" by (simp add: twice_two_sessions)
  from empty_results_skipped [of ?S twice_two_table "''result''" 1] ne
  obtain v where l: "loop twice_two_table ''result'' 1 ?S (init_vars ?S) = Inr v"
    and i: "idx v = length ?S"
    and w: "written v = map (\<lambda>g. (segment_path ''result'' g, seg_rows g))
                          (filter (\<lambda>g. seg_rows g \<noteq> []) (emitted v))"
    and p: "printed v = printed (init_vars ?S :: unit vars) @
                          map skip_message (filter (\<lambda>g. seg_rows g = []) (emitted v))"
    by blast
  from l have v: "?V = v" by simp
  have e: "emitted v = [\<lparr>seg_chamber = 7, seg_number = 1, seg_session = 1, seg_rows = [],
       seg_total = 2, seg_final = False\<rparr>,
      \<lparr>seg_chamber = 7, seg_number = 0, seg_session = 2,
       seg_rows = [sample 7 0 1, sample 7 1 1, sample 7 2 1,
                   sample 7 4 1, sample 7 5 1, sample 7 6 1],
       seg_total = 4, seg_final = True\<rparr>]"
    using twice_two_sample_one unfolding v .
  have f1: "map seg_rows (emitted v) =
     [[], [sample 7 0 1, sample 7 1 1, sample 7 2 1, sample 7 4 1, sample 7 5 1, sample 7 6 1]]"
    unfolding e by simp
  have f2: "written v = [(''result/Chamber_7_Segment_0.csv'',
       [sample 7 0 1, sample 7 1 1, sample 7 2 1, sample 7 4 1, sample 7 5 1, sample 7 6 1])]"
    unfolding w e by (simp add: segment_path_example)
  have f3: "printed v = printed (init_vars ?S :: unit vars) @
     [''No data found for ChamberID 7 in session 1. Skipping...'']"
    unfolding p e by (simp add: skip_message_example)
  show ?thesis unfolding v using ne f1 f2 f3 i by (intro conjI)
qed

section \<open>File names of the segmenting variant\<close>

text \<open>
  C7. The counter \<open>segment_count\<close> is set to 0 in the full-flush branch before the file
  name is built from it, so every full flush of a chamber is saved as
  \<open>Chamber_<c>_Segment_0\<close>. With a sample of 2 and two sessions of chamber 7 of two
  seconds each, both frames are saved under the same path, and after the run the file
  holds only the rows of the second session.
\<close>

theorem segment_file_overwritten:
  "map fst (written (projr (extract_chamber_ch4 twice_two_table ''result'' 2))) =
     [''result/Chamber_7_Segment_0.csv'', ''result/Chamber_7_Segment_0.csv''] \<and>
   map snd (written (projr (extract_chamber_ch4 twice_two_table ''result'' 2))) =
     [[sample 7 0 1, sample 7 1 1, sample 7 2 1], [sample 7 4 1, sample 7 5 1, sample 7 6 1]] \<and>
   files_after (written (projr (extract_chamber_ch4 twice_two_table ''result'' 2)))
     ''result/Chamber_7_Segment_0.csv'' = Some [sample 7 4 1, sample 7 5 1, sample 7 6 1]"
  by code_simp

section \<open>Session detection\<close>

text \<open>
  C3. The query of \<open>extract_chambers.py\<close> joins every start with every later end of the
  chamber: for a chamber active at 1, 2 and at 4, 5 it reports the sessions 1-2, 1-5 and
  4-5, of which the second overlaps the other two and is not paired with the nearest end.
  The queries of \<open>extract_ch4.py\<close> and \<open>extract_ch4_3.py\<close> pair a session of a single
  sample with the end of the session after it: for a chamber active at 1 and from 3 to 4
  the first reports 1-4 and 3-4, which overlap, and the second reports 1-4 only.
\<close>

theorem sessions_overlap:
  "active_periods_query two_sessions_table =
     [\<lparr>chamber_id = 1, start_time = 1, end_time = 2, duration_seconds = 1\<rparr>,
      \<lparr>chamber_id = 1, start_time = 1, end_time = 5, duration_seconds = 4\<rparr>,
      \<lparr>chamber_id = 1, start_time = 4, end_time = 5, duration_seconds = 1\<rparr>] \<and>
   overlap (active_periods_query two_sessions_table ! 1)
           (active_periods_query two_sessions_table ! 2) \<and>
   fetch_all_sessions single_sample_table =
     [\<lparr>chamber_id = 1, start_time = 1, end_time = 4, duration_seconds = 3\<rparr>,
      \<lparr>chamber_id = 1, start_time = 3, end_time = 4, duration_seconds = 1\<rparr>] \<and>
   overlap (fetch_all_sessions single_sample_table ! 0)
           (fetch_all_sessions single_sample_table ! 1) \<and>
   fetch_all_sessions_3 single_sample_table =
     [\<lparr>chamber_id = 1, start_time = 1, end_time = 4, duration_seconds = 3, session_num = 1\<rparr>]"
  by code_simp

section \<open>A failing session query in \<open>extract_ch4_3.py\<close>\<close>

text \<open>
  C8 (amended). When the database file exists and opens, \<open>--validate\<close> is absent or
  passes, the result directory can be made and the session query raises, the exception is
  caught in \<open>extract_chamber_ch4\<close>: its message is printed, no session is processed, no
  file is written, the connection is closed and the script ends with exit status 0.
\<close>

theorem session_query_failure_caught:
  assumes "path_exists w" and "connect w = Inr (Inl e)" and "makedirs w = None"
    and "validate \<longrightarrow> fst (validation w)"
  shows "main_3 w db result_dir validate =
     \<lparr>exit_status = 0,
      stdout = [''Connected to database: '' @ db] @
               (if validate then snd (validation w) else []) @
               [''Fetching all active sessions...'',
                ''Error fetching sessions: '' @ str_error e],
      files = [], closed = True\<rparr>"
  using assms
  by (cases "validation w")
     (simp add: main_3_def extract_chamber_ch4_3_def execute_def validate_database_def Let_def)

theorem session_query_failure_caught_witness:
  "path_exists no_table_world \<and>
   connect no_table_world =
     Inr (Inl (DatabaseError ''Catalog Error: Table with name JAAR_raw does not exist!'')) \<and>
   makedirs no_table_world = None \<and>
   main_3 no_table_world ''dataset/JAAR_DB.duckdb'' ''result'' False =
     \<lparr>exit_status = 0,
      stdout = [''Connected to database: dataset/JAAR_DB.duckdb'',
                ''Fetching all active sessions...'',
                ''Error fetching sessions: Catalog Error: Table with name JAAR_raw does not exist!''],
      files = [], closed = True\<rparr>"
proof -
  have h1: "path_exists no_table_world" by (simp add: no_table_world_def)
  have h2: "connect no_table_world =
     Inr (Inl (DatabaseError ''Catalog Error: Table with name JAAR_raw does not exist!''))"
    by (simp add: no_table_world_def)
  have h3: "makedirs no_table_world = None" by (simp add: no_table_world_def)
  have h4: "False \<longrightarrow> fst (validation no_table_world)" by simp
  from session_query_failure_caught [OF h1 h2 h3 h4,
      of "''dataset/JAAR_DB.duckdb''" "''result''"] h1 h2 h3
  show ?thesis by (simp add: str_error_def)
qed

text \<open>
  The claim as written fails: with a database without the table the session query raises,
  and the script still exits with status 0.
\<close>

theorem session_query_failure_counterexample:
  "connect no_table_world =
     Inr (Inl (DatabaseError ''Catalog Error: Table with name JAAR_raw does not exist!'')) \<and>
   execute (Inl (DatabaseError ''Catalog Error: Table with name JAAR_raw does not exist!'')
              :: unit connection) fetch_all_sessions_3 =
     Inl (DatabaseError ''Catalog Error: Table with name JAAR_raw does not exist!'') \<and>
   exit_status (main_3 no_table_world ''dataset/JAAR_DB.duckdb'' ''result'' False) = 0 \<and>
   files (main_3 no_table_world ''dataset/JAAR_DB.duckdb'' ''result'' False) = []"
  by code_simp

end
